theory Spec2Isabelle
  imports Complex_Main
begin

section \<open>Arrays, floats and exceptions\<close>

text \<open>
  A numpy array of floats is a list of reals, flattened in storage order; its shape is
  its length. Floats are reals: rounding is not modelled. Where numpy puts \<open>inf\<close> or
  \<open>nan\<close> into a result, the result is a \<open>real option\<close> and that value is \<open>None\<close>.
\<close>

type_synonym array = "real list"

datatype error =
    IndexError    \<comment> \<open>a sequence indexed out of range\<close>
  | TypeError     \<comment> \<open>\<open>int(a)\<close> of an array whose size is not 1\<close>
  | ValueError    \<comment> \<open>operands that do not broadcast; \<open>np.min\<close> of an empty array\<close>
  | KeyError      \<comment> \<open>a dictionary without the key\<close>

fun after :: "error + 'a \<Rightarrow> ('a \<Rightarrow> error + 'b) \<Rightarrow> error + 'b" where
  "after (Inl e) f = Inl e"
| "after (Inr a) f = f a"

text \<open>Elementwise binary operation of two one-dimensional arrays, with numpy's
  broadcasting of a length-1 operand.\<close>

definition broadcast2 :: "('a \<Rightarrow> 'b \<Rightarrow> 'c) \<Rightarrow> 'a list \<Rightarrow> 'b list \<Rightarrow> error + 'c list" where
  "broadcast2 f a b =
     (if length a = length b then Inr (map2 f a b)
      else if length a = 1 then Inr (map (f (hd a)) b)
      else if length b = 1 then Inr (map (\<lambda>p. f p (hd b)) a)
      else Inl ValueError)"

text \<open>Two shapes broadcast when they are equal or one of them is a single element; the single
  element of a length-1 array then stands at every index.\<close>

definition broadcasts :: "'a list \<Rightarrow> 'b list \<Rightarrow> bool" where
  "broadcasts a b \<longleftrightarrow> length a = length b \<or> length a = 1 \<or> length b = 1"

definition element :: "'a list \<Rightarrow> nat \<Rightarrow> 'a" where
  "element xs i = (if length xs = 1 then xs ! 0 else xs ! i)"

definition arr_sub :: "array \<Rightarrow> array \<Rightarrow> error + array" where
  "arr_sub = broadcast2 (\<lambda>p q. p - q)"

definition arr_add :: "array \<Rightarrow> array \<Rightarrow> error + array" where
  "arr_add = broadcast2 (\<lambda>p q. p + q)"

definition arr_mul :: "array \<Rightarrow> array \<Rightarrow> error + array" where
  "arr_mul = broadcast2 (\<lambda>p q. p * q)"

definition zeros :: "nat \<Rightarrow> array" where
  "zeros n = replicate n 0"

text \<open>\<open>xs[i]\<close> for a non-negative index.\<close>

definition getitem :: "'a list \<Rightarrow> nat \<Rightarrow> error + 'a" where
  "getitem xs i = (if i < length xs then Inr (xs ! i) else Inl IndexError)"

text \<open>\<open>np.min\<close>, \<open>np.max\<close>: a zero-size array has no minimum.\<close>

definition np_min :: "array \<Rightarrow> error + real" where
  "np_min xs = (case xs of [] \<Rightarrow> Inl ValueError | p # ps \<Rightarrow> Inr (fold min ps p))"

definition np_max :: "array \<Rightarrow> error + real" where
  "np_max xs = (case xs of [] \<Rightarrow> Inl ValueError | p # ps \<Rightarrow> Inr (fold max ps p))"

text \<open>Float division and power of finite operands, and the product of a finite float with
  a float that may be \<open>inf\<close> or \<open>nan\<close>. \<open>None\<close> is \<open>inf\<close> or \<open>nan\<close>: \<open>x ** 0.0\<close> is
  \<open>1.0\<close> for every \<open>x\<close>, a zero base with a negative exponent gives \<open>inf\<close>, a negative base
  with an exponent that is not an integer gives \<open>nan\<close>, and a product with \<open>inf\<close> or \<open>nan\<close>
  is \<open>inf\<close> or \<open>nan\<close>.\<close>

definition np_divide :: "real \<Rightarrow> real \<Rightarrow> real option" where
  "np_divide p q = (if q = 0 then None else Some (p / q))"

definition np_power :: "real \<Rightarrow> real \<Rightarrow> real option" where
  "np_power b e =
     (if e = 0 then Some 1
      else if 0 < b then Some (b powr e)
      else if b = 0 then (if 0 < e then Some 0 else None)
      else if e \<in> \<int> then Some (b powi \<lfloor>e\<rfloor>)
      else None)"

definition np_multiply :: "real \<Rightarrow> real option \<Rightarrow> real option" where
  "np_multiply s f = (case f of None \<Rightarrow> None | Some p \<Rightarrow> Some (s * p))"

section \<open>Data model\<close>

record vec3 =
  x1 :: real
  x2 :: real
  x3 :: real
  x1prime :: real
  x2prime :: real

text \<open>The turbine, as far as the flow field touches it. \<open>velocities\<close> is the internal
  velocity accumulator that \<open>reset_velocities\<close> and \<open>update_velocities\<close> write.\<close>

record turbine =
  turbulence_intensity :: real
  rotor_diameter :: real
  grid_point_count :: int
  velocities :: array

record wind_map =
  grid_wind_speed :: array
  grid_wind_direction :: array
  turbine_wind_direction :: "real list"
  turbine_turbulence_intensity :: "real list"

text \<open>The descriptors of the wake model bundle that \<open>FlowField\<close> branches on:
  \<open>wake.velocity_model.model_string\<close>, \<open>wake.turbulence_model.model_string\<close>,
  \<open>wake.velocity_model.model_grid_resolution\<close> and whether the velocity model has a
  \<open>calculate_VW\<close> attribute.\<close>

record wake =
  velocity_model_string :: string
  turbulence_model_string :: string
  model_grid_resolution :: "(real \<times> real \<times> real) option"
  has_calculate_VW :: bool

text \<open>
  The \<open>FlowField\<close> object. The grid arrays \<open>self.x\<close>, ..., \<open>self.w\<close> are the fields
  \<open>x_grid\<close>, ..., \<open>w_grid\<close>. \<open>turbine_map\<close> is the list of \<open>(coord, turbine)\<close> items
  in insertion order, so \<open>turbine_map.coords\<close> is \<open>map fst\<close> and \<open>turbine_map.turbines\<close>
  is \<open>map snd\<close>; a turbine object is identified by its position in this list.
  \<open>wake_list\<close> is the dictionary from turbines to upstream-wake counts.
\<close>

record flow_field =
  x_grid :: array
  y_grid :: array
  z_grid :: array
  u_grid :: array
  v_grid :: array
  w_grid :: array
  u_initial :: array
  v_initial :: array
  w_initial :: array
  wind_shear :: real
  wind_veer :: real
  reference_wind_height :: real
  reference_turbine_diameter :: real
  wind_map :: wind_map
  wake :: wake
  turbine_map :: "(vec3 \<times> turbine) list"
  wake_list :: "nat \<rightharpoonup> nat"

section \<open>Area overlap\<close>

text \<open>
  \<open>_calculate_area_overlap\<close>: \<open>count = np.sum(freestream_velocities - wake_velocities <= 0.05)\<close>,
  then \<open>(turbine.grid_point_count - count) / turbine.grid_point_count\<close>. The subtraction
  raises when the operands do not broadcast. With \<open>grid_point_count = 0\<close> the quotient
  is \<open>nan\<close> or \<open>-inf\<close>: \<open>None\<close>.
\<close>

definition calculate_area_overlap :: "array \<Rightarrow> array \<Rightarrow> turbine \<Rightarrow> error + real option" where
  "calculate_area_overlap wake_velocities freestream_velocities turbine =
     after (arr_sub freestream_velocities wake_velocities) (\<lambda>d.
       let count = int (length (filter (\<lambda>p. p \<le> 5 / 100) d))
       in Inr (np_divide (real_of_int (grid_point_count turbine - count))
                         (real_of_int (grid_point_count turbine))))"

section \<open>External collaborators\<close>

text \<open>
  \<open>Turbine\<close>, \<open>TurbineMap\<close>, the wake models, \<open>utilities\<close> and the methods
  \<open>set_bounds\<close>, \<open>_compute_initialized_domain\<close>, \<open>_rotated_dir\<close> and \<open>_rotated_grid\<close>
  of \<open>FlowField\<close> are not part of the sources at hand. They are parameters of the model,
  one field of \<open>ext\<close> each, with the call signatures the flow field uses. They are
  functions of their arguments; an argument of type \<open>flow_field\<close> is \<open>self\<close> as it
  stands at the call.

  \<^item> \<open>blank_velocities\<close>: the value \<open>Turbine.reset_velocities\<close> stores in the velocity
    accumulator, from the turbine's rotor diameter and grid point count.
  \<^item> \<open>rotated\<close>: \<open>TurbineMap.rotated(angles, center)\<close>, coordinate by coordinate:
    for the index and the stored coordinate, the stored coordinate as the call leaves it
    (its \<open>x1prime\<close>, \<open>x2prime\<close>) and the coordinate of the rotated map.
  \<^item> \<open>update_velocities\<close>: the value \<open>Turbine.update_velocities\<close> stores in the
    velocity accumulator.
\<close>

type_synonym points = "real list list"

record ext =
  set_bounds :: "real list option \<Rightarrow> flow_field \<Rightarrow> flow_field"
  compute_initialized_domain ::
    "(real \<times> real \<times> real) option \<Rightarrow> points option \<Rightarrow> flow_field \<Rightarrow> flow_field"
  blank_velocities :: "real \<Rightarrow> int \<Rightarrow> array"
  rotated :: "real list \<Rightarrow> vec3 \<Rightarrow> nat \<Rightarrow> vec3 \<Rightarrow> vec3 \<times> vec3"
  rotated_dir :: "array \<Rightarrow> vec3 \<Rightarrow> (vec3 \<times> nat) list \<Rightarrow> flow_field \<Rightarrow> array \<times> array \<times> array"
  rotated_grid :: "array \<Rightarrow> vec3 \<Rightarrow> flow_field \<Rightarrow> array \<times> array \<times> array"
  update_velocities ::
    "turbine \<Rightarrow> array \<Rightarrow> vec3 \<Rightarrow> flow_field \<Rightarrow> array \<Rightarrow> array \<Rightarrow> array \<Rightarrow> array"
  calculate_swept_area_velocities ::
    "turbine \<Rightarrow> array \<Rightarrow> vec3 \<Rightarrow> array \<Rightarrow> array \<Rightarrow> array \<Rightarrow> array \<Rightarrow> array \<times> array"
  velocity_function ::
    "array \<Rightarrow> array \<Rightarrow> array \<Rightarrow> turbine \<Rightarrow> vec3 \<Rightarrow> array \<Rightarrow> flow_field
       \<Rightarrow> array \<times> array \<times> array"
  calculate_VW ::
    "array \<Rightarrow> array \<Rightarrow> vec3 \<Rightarrow> turbine \<Rightarrow> flow_field \<Rightarrow> array \<Rightarrow> array \<Rightarrow> array
       \<Rightarrow> array \<times> array"
  deflection_function :: "array \<Rightarrow> array \<Rightarrow> array \<Rightarrow> turbine \<Rightarrow> vec3 \<Rightarrow> flow_field \<Rightarrow> array"
  turbulence_function :: "real \<Rightarrow> vec3 \<Rightarrow> vec3 \<Rightarrow> turbine \<Rightarrow> real"
  combination_function :: "array \<Rightarrow> array \<Rightarrow> array"

text \<open>Modelled from the spec: \<open>utilities.sind\<close> and \<open>utilities.cosd\<close>, the degree-based
  trigonometric helpers, are not in the sources.\<close>

definition sind :: "real \<Rightarrow> real" where
  "sind a = sin (a * pi / 180)"

definition cosd :: "real \<Rightarrow> real" where
  "cosd a = cos (a * pi / 180)"

text \<open>Modelled from the spec: \<open>Turbine.reset_velocities\<close> is not in the sources; it resets
  the turbine's internal velocity accumulator.\<close>

definition reset_velocities :: "ext \<Rightarrow> turbine \<Rightarrow> turbine" where
  "reset_velocities E t =
     t\<lparr>velocities := blank_velocities E (rotor_diameter t) (grid_point_count t)\<rparr>"

text \<open>Modelled from the spec: \<open>TurbineMap.sorted_in_x_as_list\<close> is not in the sources; it
  orders the items by streamwise coordinate and keeps the input order among equal ones.
  An item of the list is the coordinate and the position of its turbine in the map.\<close>

definition sorted_in_x_as_list :: "(vec3 \<times> nat) list \<Rightarrow> (vec3 \<times> nat) list" where
  "sorted_in_x_as_list items = sort_key (\<lambda>item. x1 (fst item)) items"

text \<open>The turbine objects are shared by the map, the rotated map and the sorted list:
  they are read and written through their position in \<open>turbine_map\<close>. The positions in
  the sorted list come from enumerating the map, so they are in range.\<close>

definition get_turbine :: "flow_field \<Rightarrow> nat \<Rightarrow> turbine" where
  "get_turbine ff k = snd (turbine_map ff ! k)"

definition set_turbine :: "flow_field \<Rightarrow> nat \<Rightarrow> turbine \<Rightarrow> flow_field" where
  "set_turbine ff k t =
     ff\<lparr>turbine_map := (turbine_map ff)[k := (fst (turbine_map ff ! k), t)]\<rparr>"

section \<open>Ambient field\<close>

definition reset_uvw :: "flow_field \<Rightarrow> flow_field" where
  "reset_uvw ff = ff\<lparr>u_grid := u_initial ff, v_grid := v_initial ff, w_grid := w_initial ff\<rparr>"

text \<open>The loop \<open>for i, turbine in enumerate(self.turbine_map.turbines)\<close> of
  \<open>reinitialize_flow_field\<close> and \<open>calculate_wake\<close>.\<close>

fun reinitialize_items :: "ext \<Rightarrow> real list \<Rightarrow> nat \<Rightarrow> (vec3 \<times> turbine) list
    \<Rightarrow> error + (vec3 \<times> turbine) list" where
  "reinitialize_items E tti i [] = Inr []"
| "reinitialize_items E tti i ((c, t) # rest) =
     after (getitem tti i) (\<lambda>ti.
       after (reinitialize_items E tti (Suc i) rest) (\<lambda>rest'.
         Inr ((c, reset_velocities E (t\<lparr>turbulence_intensity := ti\<rparr>)) # rest')))"

definition reinitialize_turbines :: "ext \<Rightarrow> flow_field \<Rightarrow> error + flow_field" where
  "reinitialize_turbines E ff =
     after (reinitialize_items E (turbine_turbulence_intensity (wind_map ff)) 0 (turbine_map ff))
       (\<lambda>items. Inr (ff\<lparr>turbine_map := items\<rparr>))"

text \<open>\<open>(self.z / self.reference_wind_height) ** self.wind_shear\<close> at one grid point. The
  exponent \<open>0.0\<close> gives \<open>1.0\<close> whatever the quotient is, \<open>inf\<close> and \<open>nan\<close> included. With the
  reference height \<open>0.0\<close> the quotient is \<open>nan\<close> where \<open>z\<close> is zero, and so is its power;
  elsewhere it is infinite, and its power is infinite for a positive exponent and zero for a
  negative one.\<close>

definition shear_factor :: "real \<Rightarrow> real \<Rightarrow> real \<Rightarrow> real option" where
  "shear_factor height shear zc =
     (if shear = 0 then Some 1
      else case np_divide zc height of
             None \<Rightarrow> (if zc \<noteq> 0 \<and> shear < 0 then Some 0 else None)
           | Some q \<Rightarrow> np_power q shear)"

text \<open>The six arrays \<open>initialize_velocities\<close> assigns: \<open>u_initial\<close>, \<open>v_initial\<close>, \<open>w_initial\<close>
  and their copies \<open>u\<close>, \<open>v\<close>, \<open>w\<close>. An entry of the streamwise array is \<open>None\<close> where the
  float stored there is \<open>inf\<close> or \<open>nan\<close>; nothing is raised for such an entry. The other
  attributes of the flow field stay as they are.\<close>

record initial_velocities =
  new_u_initial :: "real option list"
  new_v_initial :: array
  new_w_initial :: array
  new_u :: "real option list"
  new_v :: array
  new_w :: array

text \<open>\<open>initialize_velocities\<close>: the power point by point over \<open>z\<close>, then the product with
  the grid wind speeds, which raises when the two shapes do not broadcast.\<close>

definition initialize_velocities :: "flow_field \<Rightarrow> error + initial_velocities" where
  "initialize_velocities ff =
     after (broadcast2 np_multiply (grid_wind_speed (wind_map ff))
              (map (shear_factor (reference_wind_height ff) (wind_shear ff)) (z_grid ff)))
       (\<lambda>ui. Inr \<lparr>new_u_initial = ui,
                   new_v_initial = zeros (length ui),
                   new_w_initial = zeros (length ui),
                   new_u = ui,
                   new_v = zeros (length ui),
                   new_w = zeros (length ui)\<rparr>)"

definition reinitialize_flow_field ::
  "ext \<Rightarrow> real option \<Rightarrow> real option \<Rightarrow> wake option \<Rightarrow> wind_map option
     \<Rightarrow> (real \<times> real \<times> real) option \<Rightarrow> real list option \<Rightarrow> real option \<Rightarrow> real option
     \<Rightarrow> flow_field \<Rightarrow> error + flow_field" where
  "reinitialize_flow_field E wind_shear' wind_veer' wake' wind_map' with_resolution bounds_to_set
       reference_wind_height' reference_turbine_diameter' ff =
     (let ff1 = (case wind_map' of None \<Rightarrow> ff | Some m \<Rightarrow> ff\<lparr>wind_map := m\<rparr>);
          ff2 = (case wind_shear' of None \<Rightarrow> ff1 | Some s \<Rightarrow> ff1\<lparr>wind_shear := s\<rparr>);
          ff3 = (case wind_veer' of None \<Rightarrow> ff2 | Some s \<Rightarrow> ff2\<lparr>wind_veer := s\<rparr>);
          ff4 = (case reference_wind_height' of None \<Rightarrow> ff3
                 | Some h \<Rightarrow> ff3\<lparr>reference_wind_height := h\<rparr>);
          ff5 = (case reference_turbine_diameter' of None \<Rightarrow> ff4
                 | Some d \<Rightarrow> ff4\<lparr>reference_turbine_diameter := d\<rparr>);
          ff6 = (case wake' of None \<Rightarrow> ff5 | Some k \<Rightarrow> ff5\<lparr>wake := k\<rparr>);
          resolution = (case with_resolution of None \<Rightarrow> model_grid_resolution (wake ff6)
                        | Some r \<Rightarrow> Some r);
          ff7 = set_bounds E bounds_to_set ff6;
          ff8 = compute_initialized_domain E resolution None ff7
      in reinitialize_turbines E ff8)"

section \<open>The wake calculation\<close>

text \<open>What \<open>calculate_wake\<close> computes before its loop and reads inside it.\<close>

record frame =
  center_of_rotation :: vec3
  initial_rotated_x :: array
  initial_rotated_y :: array
  rotated_z :: array
  rx :: array
  ry :: array
  sorted_map :: "(vec3 \<times> nat) list"

text \<open>\<open>int(np.where(np.logical_and(ry == c.x2, rx == c.x1))[0])\<close>: the indices at which
  both coordinates match; \<open>int\<close> of anything but one index raises.\<close>

definition matching_indices :: "array \<Rightarrow> array \<Rightarrow> vec3 \<Rightarrow> nat list" where
  "matching_indices rxs rys c =
     filter (\<lambda>i. rys ! i = x2 c \<and> rxs ! i = x1 c) [0..<length rxs]"

definition lookup_index :: "array \<Rightarrow> array \<Rightarrow> vec3 \<Rightarrow> error + nat" where
  "lookup_index rxs rys c =
     (case matching_indices rxs rys c of [i] \<Rightarrow> Inr i | _ \<Rightarrow> Inl TypeError)"

text \<open>The grid in the frame of the current turbine: rotated once for a homogeneous wind
  direction, adjusted by the turbine's own direction otherwise.\<close>

definition turbine_grid :: "flow_field \<Rightarrow> frame \<Rightarrow> nat \<Rightarrow> error + array \<times> array" where
  "turbine_grid ff F idx =
     (if length (remdups (grid_wind_direction (wind_map ff))) = 1 then
        Inr (initial_rotated_x F, initial_rotated_y F)
      else
        after (getitem (turbine_wind_direction (wind_map ff)) idx) (\<lambda>twd.
          let wd = map (\<lambda>g. twd - g) (grid_wind_direction (wind_map ff));
              xoffset = x1 (center_of_rotation F) - rx F ! idx;
              yoffset = x2 (center_of_rotation F) - ry F ! idx;
              y_grid_offset = map (\<lambda>a. xoffset * sind a + yoffset * cosd a - yoffset) wd
          in after (arr_sub (initial_rotated_y F) y_grid_offset) (\<lambda>rotated_y.
               let xoffsets = map (\<lambda>p. x1 (center_of_rotation F) - p) (initial_rotated_x F);
                   yoffsets = map (\<lambda>p. x2 (center_of_rotation F) - p) (initial_rotated_y F)
               in after (arr_mul xoffsets (map cosd wd)) (\<lambda>xc.
                  after (arr_mul yoffsets (map sind wd)) (\<lambda>ys.
                  after (arr_sub xc ys) (\<lambda>d.
                  after (arr_sub d xoffsets) (\<lambda>x_grid_offset.
                  after (arr_sub (initial_rotated_x F) x_grid_offset) (\<lambda>rotated_x.
                    Inr (rotated_x, rotated_y)))))))))"

definition compute_turbine_velocity_deficit ::
  "ext \<Rightarrow> array \<Rightarrow> array \<Rightarrow> array \<Rightarrow> turbine \<Rightarrow> vec3 \<Rightarrow> array \<Rightarrow> flow_field
     \<Rightarrow> array \<times> array \<times> array" where
  "compute_turbine_velocity_deficit E xs ys zs turbine coord deflection ff =
     (case velocity_function E xs ys zs turbine coord deflection ff of
        (u_deficit, v_deficit, w_deficit) \<Rightarrow>
          if has_calculate_VW (wake ff) then
            (case calculate_VW E v_deficit w_deficit coord turbine ff xs ys zs of
               (v_deficit', w_deficit') \<Rightarrow> (u_deficit, v_deficit', w_deficit'))
          else (u_deficit, v_deficit, w_deficit))"

subsection \<open>Turbulence propagation\<close>

text \<open>The geometric test on a turbine at \<open>coord_ti\<close> against the current turbine at
  \<open>coord\<close> with rotor diameter \<open>d\<close>.\<close>

definition in_influence :: "vec3 \<Rightarrow> real \<Rightarrow> vec3 \<Rightarrow> bool" where
  "in_influence coord d coord_ti \<longleftrightarrow>
     x1 coord_ti > x1 coord \<and> \<bar>x2 coord - x2 coord_ti\<bar> < 2 * d
       \<and> x1 coord_ti \<le> 15 * d + x1 coord"

text \<open>The overlap of the current turbine's wake \<open>turb_u_wake\<close> with the swept area of the
  turbine at position \<open>k\<close>.\<close>

definition wake_overlap ::
  "ext \<Rightarrow> frame \<Rightarrow> array \<Rightarrow> array \<Rightarrow> nat \<Rightarrow> array \<Rightarrow> vec3 \<Rightarrow> nat \<Rightarrow> flow_field
     \<Rightarrow> error + real option" where
  "wake_overlap E F rotated_x rotated_y tid turb_u_wake coord_ti k ff =
     after (arr_sub (u_initial ff) turb_u_wake) (\<lambda>additional_wind_speed.
       case calculate_swept_area_velocities E (get_turbine ff k) (u_initial ff) coord_ti
              rotated_x rotated_y (rotated_z F) additional_wind_speed of
         (freestream_velocities, wake_velocities) \<Rightarrow>
           calculate_area_overlap wake_velocities freestream_velocities (get_turbine ff tid))"

text \<open>\<open>area_overlap > 0.0\<close>; false for \<open>nan\<close> and \<open>-inf\<close>.\<close>

definition positive :: "real option \<Rightarrow> bool" where
  "positive a = (case a of None \<Rightarrow> False | Some r \<Rightarrow> r > 0)"

text \<open>\<open>np.max((np.sqrt(ti_added ** 2 + ambient ** 2), turbine_ti.turbulence_intensity))\<close>
  with \<open>ti_added = area_overlap * ti_calculation\<close>.\<close>

definition updated_intensity :: "real \<Rightarrow> real \<Rightarrow> real \<Rightarrow> real \<Rightarrow> real" where
  "updated_intensity area_overlap ti_calculation ambient current =
     max (sqrt ((area_overlap * ti_calculation)\<^sup>2 + ambient\<^sup>2)) current"

text \<open>One pass of the loop \<open>for coord_ti, turbine_ti in sorted_map\<close>, for the current
  turbine at position \<open>tid\<close>.\<close>

definition propagate_one ::
  "ext \<Rightarrow> bool \<Rightarrow> frame \<Rightarrow> array \<Rightarrow> array \<Rightarrow> vec3 \<Rightarrow> nat \<Rightarrow> array \<Rightarrow> vec3 \<times> nat
     \<Rightarrow> flow_field \<Rightarrow> error + flow_field" where
  "propagate_one E track F rotated_x rotated_y coord tid turb_u_wake item ff =
     (case item of (coord_ti, k) \<Rightarrow>
        after (lookup_index (rx F) (ry F) coord_ti) (\<lambda>idx.
          if in_influence coord (rotor_diameter (get_turbine ff tid)) coord_ti then
            after (wake_overlap E F rotated_x rotated_y tid turb_u_wake coord_ti k ff)
              (\<lambda>area_overlap.
                 if positive area_overlap then
                   after (getitem (turbine_turbulence_intensity (wind_map ff)) idx) (\<lambda>ambient.
                     let ti_calculation =
                           turbulence_function E ambient coord_ti coord (get_turbine ff tid);
                         turbine_ti = get_turbine ff k;
                         ff' = set_turbine ff k
                                 (turbine_ti\<lparr>turbulence_intensity :=
                                    updated_intensity (the area_overlap) ti_calculation ambient
                                      (turbulence_intensity turbine_ti)\<rparr>)
                     in if track then
                          (case wake_list ff' k of
                             None \<Rightarrow> Inl KeyError
                           | Some n \<Rightarrow> Inr (ff'\<lparr>wake_list := (wake_list ff')(k \<mapsto> Suc n)\<rparr>))
                        else Inr ff')
                 else Inr ff)
          else Inr ff))"

fun propagate ::
  "ext \<Rightarrow> bool \<Rightarrow> frame \<Rightarrow> array \<Rightarrow> array \<Rightarrow> vec3 \<Rightarrow> nat \<Rightarrow> array \<Rightarrow> (vec3 \<times> nat) list
     \<Rightarrow> flow_field \<Rightarrow> error + flow_field" where
  "propagate E track F rotated_x rotated_y coord tid turb_u_wake [] ff = Inr ff"
| "propagate E track F rotated_x rotated_y coord tid turb_u_wake (item # items) ff =
     after (propagate_one E track F rotated_x rotated_y coord tid turb_u_wake item ff)
       (propagate E track F rotated_x rotated_y coord tid turb_u_wake items)"

text \<open>The gate on the turbulence model's name.\<close>

definition propagates :: "flow_field \<Rightarrow> bool" where
  "propagates ff \<longleftrightarrow>
     ''crespo_hernandez'' = turbulence_model_string (wake ff)
       \<or> turbulence_model_string (wake ff) = ''ishihara_qian''"

definition turbulence_propagation ::
  "ext \<Rightarrow> bool \<Rightarrow> frame \<Rightarrow> array \<Rightarrow> array \<Rightarrow> vec3 \<Rightarrow> nat \<Rightarrow> array \<Rightarrow> flow_field
     \<Rightarrow> error + flow_field" where
  "turbulence_propagation E track F rotated_x rotated_y coord tid turb_u_wake ff =
     (if propagates ff then
        propagate E track F rotated_x rotated_y coord tid turb_u_wake (sorted_map F) ff
      else Inr ff)"

subsection \<open>The loop over the sorted turbines\<close>

text \<open>The deficit of the turbine at position \<open>tid\<close>, once its velocities are updated:
  the flow field with the updated turbine, and the three deficit fields.\<close>

definition turbine_wake ::
  "ext \<Rightarrow> frame \<Rightarrow> array \<Rightarrow> array \<Rightarrow> vec3 \<Rightarrow> nat \<Rightarrow> array \<Rightarrow> flow_field
     \<Rightarrow> flow_field \<times> array \<times> array \<times> array" where
  "turbine_wake E F rotated_x rotated_y coord tid u_wake ff =
     (let t = get_turbine ff tid;
          ff' = set_turbine ff tid
                  (t\<lparr>velocities :=
                       update_velocities E t u_wake coord ff rotated_x rotated_y (rotated_z F)\<rparr>);
          turbine = get_turbine ff' tid;
          deflection = deflection_function E rotated_x rotated_y (rotated_z F) turbine coord ff'
      in (ff', compute_turbine_velocity_deficit E rotated_x rotated_y (rotated_z F)
                 turbine coord deflection ff'))"

text \<open>\<open>if not no_wake\<close>: the deficit joins the accumulated field, \<open>v\<close> and \<open>w\<close> are
  overwritten for the curl model and added to otherwise.\<close>

definition combine_wake ::
  "ext \<Rightarrow> bool \<Rightarrow> array \<times> array \<times> array \<Rightarrow> array \<times> flow_field \<Rightarrow> error + array \<times> flow_field" where
  "combine_wake E no_wake deficit st =
     (case (deficit, st) of ((turb_u_wake, turb_v_wake, turb_w_wake), (u_wake, ff)) \<Rightarrow>
        if \<not> no_wake then
          let u_wake' = combination_function E u_wake turb_u_wake
          in if velocity_model_string (wake ff) = ''curl'' then
               Inr (u_wake', ff\<lparr>v_grid := turb_v_wake, w_grid := turb_w_wake\<rparr>)
             else
               after (arr_add (v_grid ff) turb_v_wake) (\<lambda>v'.
               after (arr_add (w_grid ff) turb_w_wake) (\<lambda>w'.
                 Inr (u_wake', ff\<lparr>v_grid := v', w_grid := w'\<rparr>)))
        else Inr (u_wake, ff))"

text \<open>The body of \<open>for coord, turbine in sorted_map\<close>; the state is the accumulated
  deficit \<open>u_wake\<close> and the flow field.\<close>

definition wake_step ::
  "ext \<Rightarrow> bool \<Rightarrow> bool \<Rightarrow> frame \<Rightarrow> vec3 \<times> nat \<Rightarrow> array \<times> flow_field
     \<Rightarrow> error + array \<times> flow_field" where
  "wake_step E no_wake track F item st =
     (case (item, st) of ((coord, tid), (u_wake, ff)) \<Rightarrow>
        after (lookup_index (rx F) (ry F) coord) (\<lambda>idx.
        after (turbine_grid ff F idx) (\<lambda>(rotated_x, rotated_y).
          case turbine_wake E F rotated_x rotated_y coord tid u_wake ff of
            (ff1, turb_u_wake, turb_v_wake, turb_w_wake) \<Rightarrow>
              after (turbulence_propagation E track F rotated_x rotated_y coord tid turb_u_wake ff1)
                (\<lambda>ff2. combine_wake E no_wake (turb_u_wake, turb_v_wake, turb_w_wake)
                          (u_wake, ff2)))))"

fun wake_loop ::
  "ext \<Rightarrow> bool \<Rightarrow> bool \<Rightarrow> frame \<Rightarrow> (vec3 \<times> nat) list \<Rightarrow> array \<times> flow_field
     \<Rightarrow> error + array \<times> flow_field" where
  "wake_loop E no_wake track F [] st = Inr st"
| "wake_loop E no_wake track F (item # items) st =
     after (wake_step E no_wake track F item st) (wake_loop E no_wake track F items)"

subsection \<open>Before and after the loop\<close>

text \<open>Lines 245 to 254: the reset for a gridded model, the extra points, the fresh
  counters.\<close>

definition enter :: "ext \<Rightarrow> points option \<Rightarrow> bool \<Rightarrow> flow_field \<Rightarrow> flow_field" where
  "enter E points track ff =
     (let ff1 = (if model_grid_resolution (wake ff) \<noteq> None then reset_uvw ff else ff);
          ff2 = (case points of None \<Rightarrow> ff1
                 | Some p \<Rightarrow> compute_initialized_domain E None (Some p) ff1)
      in if track then
           ff2\<lparr>wake_list := (\<lambda>k. if k < length (turbine_map ff2) then Some 0 else None)\<rparr>
         else ff2)"

text \<open>\<open>rotated_map = self.turbine_map.rotated(...)\<close>: the stored items as the call leaves
  them, and the items of the rotated map, each with the position of its turbine.\<close>

definition rotated_items ::
  "ext \<Rightarrow> real list \<Rightarrow> vec3 \<Rightarrow> (vec3 \<times> turbine) list
     \<Rightarrow> (vec3 \<times> turbine) list \<times> (vec3 \<times> nat) list" where
  "rotated_items E angles center items =
     (map (\<lambda>(i, c, t). (fst (rotated E angles center i c), t)) (enumerate 0 items),
      map (\<lambda>(i, c, t). (snd (rotated E angles center i c), i)) (enumerate 0 items))"

text \<open>Lines 263 to 267: the centre of rotation, the midpoint of the grid's extent.\<close>

definition center_of :: "flow_field \<Rightarrow> error + vec3" where
  "center_of ff =
     after (np_min (x_grid ff)) (\<lambda>xmin.
     after (np_max (x_grid ff)) (\<lambda>xmax.
     after (np_min (y_grid ff)) (\<lambda>ymin.
     after (np_max (y_grid ff)) (\<lambda>ymax.
       Inr \<lparr>x1 = (xmin + xmax) / 2, x2 = (ymin + ymax) / 2, x3 = 0,
            x1prime = 0, x2prime = 0\<rparr>))))"

text \<open>Lines 269 to 292: the rotated and sorted map, the rotated grid, \<open>u_wake\<close>, \<open>v\<close> and
  \<open>w\<close> emptied, \<open>rx\<close> and \<open>ry\<close>. The result is the frame of the loop and the loop's
  initial state.\<close>

definition rotate_frame :: "ext \<Rightarrow> vec3 \<Rightarrow> flow_field \<Rightarrow> frame \<times> array \<times> flow_field" where
  "rotate_frame E center ff1 =
     (let (items, rotated_map) =
              rotated_items E (turbine_wind_direction (wind_map ff1)) center (turbine_map ff1);
          ff2 = ff1\<lparr>turbine_map := items\<rparr>;
          (irx, iry, rz) = rotated_dir E (grid_wind_direction (wind_map ff2)) center rotated_map ff2;
          u_wake = zeros (length (u_grid ff2));
          ff3 = ff2\<lparr>v_grid := zeros (length (u_grid ff2)), w_grid := zeros (length (u_grid ff2))\<rparr>
      in (\<lparr>center_of_rotation = center,
            initial_rotated_x = irx, initial_rotated_y = iry, rotated_z = rz,
            rx = map (\<lambda>item. x1prime (fst item)) (turbine_map ff3),
            ry = map (\<lambda>item. x2prime (fst item)) (turbine_map ff3),
            sorted_map = sorted_in_x_as_list rotated_map\<rparr>,
          u_wake, ff3))"

text \<open>Lines 256 to 292: the turbines reinitialised, then the above.\<close>

definition prepare ::
  "ext \<Rightarrow> flow_field \<Rightarrow> error + frame \<times> array \<times> flow_field" where
  "prepare E ff =
     after (reinitialize_turbines E ff) (\<lambda>ff1.
     after (center_of ff1) (\<lambda>center. Inr (rotate_frame E center ff1)))"

text \<open>Lines 428 to 438: the deficit applied to the freestream, the grid rotated back for
  the curl model.\<close>

definition finish ::
  "ext \<Rightarrow> bool \<Rightarrow> frame \<Rightarrow> array \<times> flow_field \<Rightarrow> error + flow_field" where
  "finish E no_wake F st =
     (case st of (u_wake, ff) \<Rightarrow>
        after (if \<not> no_wake then
                 after (arr_sub (u_initial ff) u_wake) (\<lambda>u'. Inr (ff\<lparr>u_grid := u'\<rparr>))
               else Inr ff)
          (\<lambda>ff1.
             if velocity_model_string (wake ff1) = ''curl'' then
               (case rotated_grid E (map (\<lambda>g. - 1 * g) (grid_wind_direction (wind_map ff1)))
                       (center_of_rotation F) ff1 of
                  (x', y', z') \<Rightarrow> Inr (ff1\<lparr>x_grid := x', y_grid := y', z_grid := z'\<rparr>))
             else Inr ff1))"

definition calculate_wake ::
  "ext \<Rightarrow> bool \<Rightarrow> points option \<Rightarrow> bool \<Rightarrow> flow_field \<Rightarrow> error + flow_field" where
  "calculate_wake E no_wake points track_n_upstream_wakes ff =
     after (prepare E (enter E points track_n_upstream_wakes ff)) (\<lambda>(F, u_wake, ff0).
     after (wake_loop E no_wake track_n_upstream_wakes F (sorted_map F) (u_wake, ff0))
       (finish E no_wake F))"

section \<open>Relations between flow fields\<close>

definition intensity_of :: "flow_field \<Rightarrow> nat \<Rightarrow> real" where
  "intensity_of ff k = turbulence_intensity (get_turbine ff k)"

text \<open>Everything but \<open>v\<close>, \<open>w\<close>, the counters and the turbines' intensities and velocity
  accumulators is the same.\<close>

definition same_setting :: "flow_field \<Rightarrow> flow_field \<Rightarrow> bool" where
  "same_setting a b \<longleftrightarrow>
     x_grid b = x_grid a \<and> y_grid b = y_grid a \<and> z_grid b = z_grid a \<and> u_grid b = u_grid a
     \<and> u_initial b = u_initial a \<and> v_initial b = v_initial a \<and> w_initial b = w_initial a
     \<and> wind_shear b = wind_shear a \<and> wind_veer b = wind_veer a
     \<and> reference_wind_height b = reference_wind_height a
     \<and> reference_turbine_diameter b = reference_turbine_diameter a
     \<and> wind_map b = wind_map a \<and> wake b = wake a
     \<and> map fst (turbine_map b) = map fst (turbine_map a)
     \<and> map (\<lambda>item. rotor_diameter (snd item)) (turbine_map b)
         = map (\<lambda>item. rotor_diameter (snd item)) (turbine_map a)
     \<and> map (\<lambda>item. grid_point_count (snd item)) (turbine_map b)
         = map (\<lambda>item. grid_point_count (snd item)) (turbine_map a)"

definition carried :: "flow_field \<Rightarrow> flow_field \<Rightarrow> bool" where
  "carried a b \<longleftrightarrow> same_setting a b \<and> (\<forall>j. intensity_of a j \<le> intensity_of b j)"

text \<open>The turbine of a sorted item stands in the influence zone of the current turbine and
  has a positive overlap with its wake: the two conditions under which the propagation
  writes to it.\<close>

definition influenced ::
  "ext \<Rightarrow> frame \<Rightarrow> array \<Rightarrow> array \<Rightarrow> vec3 \<Rightarrow> nat \<Rightarrow> array \<Rightarrow> flow_field \<Rightarrow> vec3 \<times> nat \<Rightarrow> bool" where
  "influenced E F rotated_x rotated_y coord tid turb_u_wake ff item \<longleftrightarrow>
     in_influence coord (rotor_diameter (get_turbine ff tid)) (fst item)
     \<and> (case wake_overlap E F rotated_x rotated_y tid turb_u_wake (fst item) (snd item) ff of
          Inl e \<Rightarrow> False
        | Inr a \<Rightarrow> positive a)"

text \<open>The update as the specification words it: the larger of the turbine's current
  intensity and the root-sum-of-squares of the scaled added turbulence with the turbine's
  existing intensity.\<close>

definition claimed_intensity :: "real \<Rightarrow> real \<Rightarrow> real \<Rightarrow> real" where
  "claimed_intensity area_overlap ti_calculation existing =
     max existing (sqrt ((area_overlap * ti_calculation)\<^sup>2 + existing\<^sup>2))"



text \<open>The external domain methods leave the shear exponent alone.\<close>

definition keeps_wind_shear :: "ext \<Rightarrow> bool" where
  "keeps_wind_shear E \<longleftrightarrow>
     (\<forall>b ff. wind_shear (set_bounds E b ff) = wind_shear ff)
     \<and> (\<forall>r p ff. wind_shear (compute_initialized_domain E r p ff) = wind_shear ff)"


section \<open>A row of three turbines\<close>

text \<open>
  A farm to run the model on: wind from 270 degrees at 8 m/s, a grid of one point at each of
  \<open>x = 0, 500, 1000\<close>, three turbines of rotor diameter 100 with one swept-area sample
  each, ambient turbulence intensity 0.06. A turbine samples the grid points at its own
  streamwise position; its wake takes 2 m/s off every point strictly downstream of it;
  deficits add up; a turbine whose inflow is below 8 m/s adds turbulence 0.175, any other
  0.08.
\<close>

definition row_coord :: "real \<Rightarrow> vec3" where
  "row_coord p = \<lparr>x1 = p, x2 = 0, x3 = 0, x1prime = p, x2prime = 0\<rparr>"

definition samples_at :: "array \<Rightarrow> vec3 \<Rightarrow> array \<Rightarrow> array" where
  "samples_at xs c vals = map snd (filter (\<lambda>pv. fst pv = x1 c) (zip xs vals))"

definition row_ext :: ext where
  "row_ext = \<lparr>
     set_bounds = (\<lambda>b ff. ff),
     compute_initialized_domain = (\<lambda>r p ff. ff),
     blank_velocities = (\<lambda>d n. replicate (nat n) 0),
     rotated = (\<lambda>angles center i c. (c\<lparr>x1prime := x1 c, x2prime := x2 c\<rparr>,
                                       c\<lparr>x1prime := x1 c, x2prime := x2 c\<rparr>)),
     rotated_dir = (\<lambda>wd center rm ff. (x_grid ff, y_grid ff, z_grid ff)),
     rotated_grid = (\<lambda>wd center ff. (x_grid ff, y_grid ff, z_grid ff)),
     update_velocities = (\<lambda>t u_wake c ff xs ys zs.
        samples_at xs c (map2 (\<lambda>a d. a - d) (u_initial ff) u_wake)),
     calculate_swept_area_velocities = (\<lambda>t ws c xs ys zs extra.
        (samples_at xs c ws, samples_at xs c extra)),
     velocity_function = (\<lambda>xs ys zs t c deflection ff.
        (map (\<lambda>p. if x1 c < p then 2 else 0) xs, zeros (length xs), zeros (length xs))),
     calculate_VW = (\<lambda>vd wd c t ff xs ys zs. (vd, wd)),
     deflection_function = (\<lambda>xs ys zs t c ff. zeros (length xs)),
     turbulence_function = (\<lambda>ambient c_ti c t.
        case velocities t of [] \<Rightarrow> 0 | s # _ \<Rightarrow> if s < 8 then 7 / 40 else 2 / 25),
     combination_function = map2 (\<lambda>a d. a + d)\<rparr>"

definition row_turbine :: "real \<Rightarrow> array \<Rightarrow> turbine" where
  "row_turbine ti vs = \<lparr>turbulence_intensity = ti, rotor_diameter = 100,
      grid_point_count = 1, velocities = vs\<rparr>"

text \<open>The farm with the given turbulence model name, turbine positions, and intensity and
  velocity accumulator of each turbine.\<close>

definition row_farm :: "string \<Rightarrow> real list \<Rightarrow> (real \<times> array) list \<Rightarrow> flow_field" where
  "row_farm model positions ts = \<lparr>
     x_grid = [0, 500, 1000], y_grid = [0, 0, 0], z_grid = [90, 90, 90],
     u_grid = [8, 8, 8], v_grid = [0, 0, 0], w_grid = [0, 0, 0],
     u_initial = [8, 8, 8], v_initial = [0, 0, 0], w_initial = [0, 0, 0],
     wind_shear = 12 / 100, wind_veer = 0, reference_wind_height = 90,
     reference_turbine_diameter = 100,
     wind_map = \<lparr>grid_wind_speed = [8, 8, 8], grid_wind_direction = [270, 270, 270],
                  turbine_wind_direction = [270, 270, 270],
                  turbine_turbulence_intensity = [3 / 50, 3 / 50, 3 / 50]\<rparr>,
     wake = \<lparr>velocity_model_string = ''gauss'', turbulence_model_string = model,
              model_grid_resolution = None, has_calculate_VW = False\<rparr>,
     turbine_map = map2 (\<lambda>p (ti, vs). (row_coord p, row_turbine ti vs)) positions ts,
     wake_list = Map.empty\<rparr>"

text \<open>The frame of the loop on the row: the wind comes from 270 degrees, so nothing
  rotates.\<close>

definition row_frame :: frame where
  "row_frame = \<lparr>center_of_rotation = \<lparr>x1 = 500, x2 = 0, x3 = 0, x1prime = 0, x2prime = 0\<rparr>,
     initial_rotated_x = [0, 500, 1000], initial_rotated_y = [0, 0, 0],
     rotated_z = [90, 90, 90], rx = [0, 500, 1000], ry = [0, 0, 0],
     sorted_map = [(row_coord 0, 0), (row_coord 500, 1), (row_coord 1000, 2)]\<rparr>"

definition intensities :: "error + flow_field \<Rightarrow> error + real list" where
  "intensities r =
     (case r of Inl e \<Rightarrow> Inl e
      | Inr ff \<Rightarrow> Inr (map (\<lambda>item. turbulence_intensity (snd item)) (turbine_map ff)))"


section \<open>Basic facts\<close>

lemma after_Inr_iff: "after m f = Inr b \<longleftrightarrow> (\<exists>a. m = Inr a \<and> f a = Inr b)"
  by (cases m) auto

section \<open>What a call keeps and what it raises\<close>

lemma same_setting_refl: "same_setting a a"
  by (simp add: same_setting_def)

lemma same_setting_trans: "same_setting a b \<Longrightarrow> same_setting b c \<Longrightarrow> same_setting a c"
  by (simp add: same_setting_def)

lemma same_setting_length: "same_setting a b \<Longrightarrow> length (turbine_map b) = length (turbine_map a)"
  unfolding same_setting_def by (metis length_map)

lemma carried_refl: "carried a a"
  by (simp add: carried_def same_setting_refl)

lemma carried_trans: "carried a b \<Longrightarrow> carried b c \<Longrightarrow> carried a c"
  unfolding carried_def using same_setting_trans order_trans by blast

lemma map_update_same: "f y = f (xs ! k) \<Longrightarrow> map f (xs[k := y]) = map f xs"
  by (cases "k < length xs") (simp_all add: map_update list_update_same_conv not_less list_update_beyond)

lemma set_turbine_setting:
  assumes "rotor_diameter t = rotor_diameter (get_turbine ff k)"
    and "grid_point_count t = grid_point_count (get_turbine ff k)"
  shows "same_setting ff (set_turbine ff k t)"
  using assms by (simp add: same_setting_def set_turbine_def get_turbine_def map_update_same)

lemma intensity_set_turbine:
  "intensity_of (set_turbine ff k t) j =
     (if j = k \<and> k < length (turbine_map ff) then turbulence_intensity t else intensity_of ff j)"
  by (cases "k < length (turbine_map ff)")
     (auto simp: intensity_of_def get_turbine_def set_turbine_def nth_list_update not_less list_update_beyond)

lemma get_set_turbine:
  "get_turbine (set_turbine ff k t) j =
     (if j = k \<and> k < length (turbine_map ff) then t else get_turbine ff j)"
  by (cases "k < length (turbine_map ff)")
     (auto simp: get_turbine_def set_turbine_def nth_list_update not_less list_update_beyond)

lemma set_turbine_fields:
  "v_grid (set_turbine ff k t) = v_grid ff"
  "w_grid (set_turbine ff k t) = w_grid ff"
  "wake_list (set_turbine ff k t) = wake_list ff"
  "u_initial (set_turbine ff k t) = u_initial ff"
  "wind_map (set_turbine ff k t) = wind_map ff"
  "wake (set_turbine ff k t) = wake ff"
  "length (turbine_map (set_turbine ff k t)) = length (turbine_map ff)"
  by (simp_all add: set_turbine_def)

lemma same_setting_wake_list: "same_setting a (b\<lparr>wake_list := m\<rparr>) = same_setting a b"
  by (simp add: same_setting_def)

lemma intensity_wake_list: "intensity_of (b\<lparr>wake_list := m\<rparr>) j = intensity_of b j"
  by (simp add: intensity_of_def get_turbine_def)

lemma same_setting_vw: "same_setting a (b\<lparr>v_grid := p, w_grid := q\<rparr>) = same_setting a b"
  by (simp add: same_setting_def)

lemma intensity_vw: "intensity_of (b\<lparr>v_grid := p, w_grid := q\<rparr>) j = intensity_of b j"
  by (simp add: intensity_of_def get_turbine_def)

lemma updated_intensity_ge: "current \<le> updated_intensity a c ambient current"
  by (simp add: updated_intensity_def)

lemma propagate_one_cases:
  assumes "propagate_one E track F rotated_x rotated_y coord tid turb_u_wake (coord_ti, k) ff = Inr ff'"
  shows "ff' = ff
     \<or> (\<exists>idx a. lookup_index (rx F) (ry F) coord_ti = Inr idx
          \<and> in_influence coord (rotor_diameter (get_turbine ff tid)) coord_ti
          \<and> wake_overlap E F rotated_x rotated_y tid turb_u_wake coord_ti k ff = Inr (Some a)
          \<and> 0 < a
          \<and> idx < length (turbine_turbulence_intensity (wind_map ff))
          \<and> ff' = (set_turbine ff k
                 ((get_turbine ff k)\<lparr>turbulence_intensity :=
                    updated_intensity a
                      (turbulence_function E (turbine_turbulence_intensity (wind_map ff) ! idx)
                         coord_ti coord (get_turbine ff tid))
                      (turbine_turbulence_intensity (wind_map ff) ! idx)
                      (turbulence_intensity (get_turbine ff k))\<rparr>))
               \<lparr>wake_list := (if track then (wake_list ff)(k \<mapsto> Suc (the (wake_list ff k)))
                              else wake_list ff)\<rparr>
          \<and> (track \<longrightarrow> wake_list ff k \<noteq> None))"
  using assms
  unfolding propagate_one_def
  apply (auto simp: after_Inr_iff positive_def getitem_def set_turbine_def Let_def
           split: if_splits option.splits)
   apply blast+
  done

lemma propagate_one_carried:
  assumes "propagate_one E track F rotated_x rotated_y coord tid turb_u_wake item ff = Inr ff'"
  shows "carried ff ff' \<and> v_grid ff' = v_grid ff \<and> w_grid ff' = w_grid ff"
proof -
  obtain coord_ti k where item: "item = (coord_ti, k)" by (cases item)
  from propagate_one_cases [OF assms [unfolded item]]
  consider "ff' = ff"
    | ti m where "ff' = (set_turbine ff k ((get_turbine ff k)\<lparr>turbulence_intensity := ti\<rparr>))\<lparr>wake_list := m\<rparr>"
        "turbulence_intensity (get_turbine ff k) \<le> ti"
    using updated_intensity_ge by blast
  then show ?thesis
  proof cases
    case 1
    then show ?thesis by (simp add: carried_refl)
  next
    case 2
    have s: "same_setting ff ff'"
      unfolding 2(1) same_setting_wake_list by (rule set_turbine_setting) simp_all
    have i: "intensity_of ff j \<le> intensity_of ff' j" for j
      unfolding 2(1) intensity_wake_list intensity_set_turbine using 2(2)
      by (simp add: intensity_of_def)
    show ?thesis using s i by (simp add: carried_def 2(1) set_turbine_fields)
  qed
qed

lemma propagate_carried:
  "propagate E track F rotated_x rotated_y coord tid turb_u_wake items ff = Inr ff'
     \<Longrightarrow> carried ff ff' \<and> v_grid ff' = v_grid ff \<and> w_grid ff' = w_grid ff"
proof (induction items arbitrary: ff)
  case Nil
  then show ?case by (simp add: carried_refl)
next
  case (Cons item items)
  from Cons.prems obtain mid where
    one: "propagate_one E track F rotated_x rotated_y coord tid turb_u_wake item ff = Inr mid"
    and rest: "propagate E track F rotated_x rotated_y coord tid turb_u_wake items mid = Inr ff'"
    by (auto simp: after_Inr_iff)
  from propagate_one_carried [OF one] Cons.IH [OF rest] show ?case
    using carried_trans by auto
qed

lemma turbulence_propagation_carried:
  "turbulence_propagation E track F rotated_x rotated_y coord tid turb_u_wake ff = Inr ff'
     \<Longrightarrow> carried ff ff' \<and> v_grid ff' = v_grid ff \<and> w_grid ff' = w_grid ff"
  unfolding turbulence_propagation_def
  using propagate_carried by (auto simp: carried_refl split: if_splits)

lemma turbine_wake_carried:
  "turbine_wake E F rotated_x rotated_y coord tid u_wake ff = (ff1, deficit)
     \<Longrightarrow> carried ff ff1 \<and> (\<forall>j. intensity_of ff1 j = intensity_of ff j)"
proof -
  assume a: "turbine_wake E F rotated_x rotated_y coord tid u_wake ff = (ff1, deficit)"
  define t where "t = (get_turbine ff tid)\<lparr>velocities :=
      update_velocities E (get_turbine ff tid) u_wake coord ff rotated_x rotated_y (rotated_z F)\<rparr>"
  have ff1: "ff1 = set_turbine ff tid t"
    using a by (simp add: turbine_wake_def Let_def t_def)
  have s: "same_setting ff ff1"
    unfolding ff1 by (rule set_turbine_setting) (simp_all add: t_def)
  have i: "intensity_of ff1 j = intensity_of ff j" for j
    unfolding ff1 intensity_set_turbine by (simp add: t_def intensity_of_def)
  show ?thesis using s i by (simp add: carried_def)
qed

lemma combine_wake_carried:
  "combine_wake E no_wake deficit (u_wake, ff) = Inr (u_wake', ff')
     \<Longrightarrow> carried ff ff' \<and> (\<forall>j. intensity_of ff' j = intensity_of ff j)
         \<and> (no_wake \<longrightarrow> u_wake' = u_wake)"
  unfolding combine_wake_def
  by (cases deficit)
     (auto simp: carried_def same_setting_vw intensity_vw same_setting_refl after_Inr_iff Let_def
           split: if_splits)

lemma wake_step_Inr:
  "wake_step E no_wake track F (coord, tid) (u_wake, ff) = Inr r \<longleftrightarrow>
     (\<exists>idx rotated_x rotated_y ff1 tu tv tw ff2.
        lookup_index (rx F) (ry F) coord = Inr idx
        \<and> turbine_grid ff F idx = Inr (rotated_x, rotated_y)
        \<and> turbine_wake E F rotated_x rotated_y coord tid u_wake ff = (ff1, tu, tv, tw)
        \<and> turbulence_propagation E track F rotated_x rotated_y coord tid tu ff1 = Inr ff2
        \<and> combine_wake E no_wake (tu, tv, tw) (u_wake, ff2) = Inr r)"
  unfolding wake_step_def
  by (simp add: after_Inr_iff case_prod_beta) (metis prod.collapse fst_conv snd_conv)

lemma wake_step_carried:
  assumes "wake_step E no_wake track F item (u_wake, ff) = Inr (u_wake', ff')"
  shows "carried ff ff' \<and> (no_wake \<longrightarrow> u_wake' = u_wake)"
proof -
  obtain coord tid where item: "item = (coord, tid)" by (cases item)
  from assms obtain idx rotated_x rotated_y ff1 tu tv tw ff2 where
    tw: "turbine_wake E F rotated_x rotated_y coord tid u_wake ff = (ff1, tu, tv, tw)"
    and tp: "turbulence_propagation E track F rotated_x rotated_y coord tid tu ff1 = Inr ff2"
    and cw: "combine_wake E no_wake (tu, tv, tw) (u_wake, ff2) = Inr (u_wake', ff')"
    unfolding item wake_step_Inr by blast
  from turbine_wake_carried [OF tw] turbulence_propagation_carried [OF tp]
    combine_wake_carried [OF cw]
  show ?thesis using carried_trans by blast
qed

lemma wake_loop_carried:
  "wake_loop E no_wake track F items (u_wake, ff) = Inr (u_wake', ff')
     \<Longrightarrow> carried ff ff' \<and> (no_wake \<longrightarrow> u_wake' = u_wake)"
proof (induction items arbitrary: u_wake ff)
  case Nil
  then show ?case by (simp add: carried_refl)
next
  case (Cons item items)
  from Cons.prems obtain uw1 ff1 where
    one: "wake_step E no_wake track F item (u_wake, ff) = Inr (uw1, ff1)"
    and rest: "wake_loop E no_wake track F items (uw1, ff1) = Inr (u_wake', ff')"
    by (auto simp: after_Inr_iff)
  from wake_step_carried [OF one] Cons.IH [OF rest] show ?case
    using carried_trans by auto
qed

section \<open>The stages of a call\<close>

lemma reinitialize_items_nth:
  "reinitialize_items E tti i items = Inr items'
     \<Longrightarrow> length items' = length items
         \<and> (\<forall>k < length items. i + k < length tti
               \<and> items' ! k = (fst (items ! k),
                 reset_velocities E ((snd (items ! k))\<lparr>turbulence_intensity := tti ! (i + k)\<rparr>)))"
proof (induction items arbitrary: i items')
  case Nil
  then show ?case by simp
next
  case (Cons item items)
  obtain c t where item: "item = (c, t)" by (cases item)
  from Cons.prems obtain rest' where
    i: "i < length tti"
    and rest: "reinitialize_items E tti (Suc i) items = Inr rest'"
    and items': "items' = (c, reset_velocities E (t\<lparr>turbulence_intensity := tti ! i\<rparr>)) # rest'"
    unfolding item by (auto simp: after_Inr_iff getitem_def split: if_splits)
  note ih = Cons.IH [OF rest]
  have len: "length items' = length (item # items)" using ih by (simp add: items')
  have nth: "i + k < length tti
      \<and> items' ! k = (fst ((item # items) ! k),
            reset_velocities E ((snd ((item # items) ! k))\<lparr>turbulence_intensity := tti ! (i + k)\<rparr>))"
    if "k < length (item # items)" for k
  proof (cases k)
    case 0
    then show ?thesis using i by (simp add: items' item)
  next
    case (Suc m)
    then have "m < length items" using that by simp
    with ih show ?thesis by (simp add: Suc items')
  qed
  show ?case using len nth by blast
qed

lemma reinitialize_turbines_Inr:
  assumes "reinitialize_turbines E ff = Inr ff1"
  shows "\<exists>items. ff1 = ff\<lparr>turbine_map := items\<rparr>
           \<and> length items = length (turbine_map ff)
           \<and> length (turbine_map ff) \<le> length (turbine_turbulence_intensity (wind_map ff))
           \<and> (\<forall>k < length (turbine_map ff).
                 items ! k = (fst (turbine_map ff ! k),
                   reset_velocities E ((snd (turbine_map ff ! k))
                     \<lparr>turbulence_intensity := turbine_turbulence_intensity (wind_map ff) ! k\<rparr>)))"
proof -
  from assms obtain items where
    r: "reinitialize_items E (turbine_turbulence_intensity (wind_map ff)) 0 (turbine_map ff) = Inr items"
    and ff1: "ff1 = ff\<lparr>turbine_map := items\<rparr>"
    unfolding reinitialize_turbines_def by (auto simp: after_Inr_iff)
  note n = reinitialize_items_nth [OF r]
  have bound: "length (turbine_map ff) \<le> length (turbine_turbulence_intensity (wind_map ff))"
  proof (cases "turbine_map ff = []")
    case True
    then show ?thesis by simp
  next
    case False
    then have "length (turbine_map ff) - 1 < length (turbine_map ff)" by simp
    with n have "0 + (length (turbine_map ff) - 1) < length (turbine_turbulence_intensity (wind_map ff))"
      by blast
    then show ?thesis by simp
  qed
  show ?thesis
    by (rule exI [of _ items]) (use n ff1 bound in simp)
qed

lemma rotated_items_fst:
  "length (fst (rotated_items E angles center items)) = length items
   \<and> (\<forall>k < length items. snd (fst (rotated_items E angles center items) ! k) = snd (items ! k))"
  by (simp add: rotated_items_def nth_enumerate_eq case_prod_beta)

lemma rotate_frame_fields:
  assumes "rotate_frame E center ff1 = (F, u_wake, ff0)"
  shows "u_grid ff0 = u_grid ff1" "u_initial ff0 = u_initial ff1" "wind_map ff0 = wind_map ff1"
    "wake ff0 = wake ff1" "wake_list ff0 = wake_list ff1"
    "x_grid ff0 = x_grid ff1" "y_grid ff0 = y_grid ff1" "z_grid ff0 = z_grid ff1"
    "u_wake = zeros (length (u_grid ff1))"
    "turbine_map ff0 = fst (rotated_items E (turbine_wind_direction (wind_map ff1)) center (turbine_map ff1))"
  using assms [symmetric] by (simp_all add: rotate_frame_def Let_def case_prod_beta)

lemma prepare_Inr_iff:
  "prepare E ff = Inr r \<longleftrightarrow>
     (\<exists>ff1 center. reinitialize_turbines E ff = Inr ff1 \<and> center_of ff1 = Inr center
        \<and> rotate_frame E center ff1 = r)"
  unfolding prepare_def by (simp add: after_Inr_iff)

lemma prepare_Inr:
  assumes "prepare E ff = Inr (F, u_wake, ff0)"
  shows "u_grid ff0 = u_grid ff \<and> u_initial ff0 = u_initial ff \<and> wind_map ff0 = wind_map ff
       \<and> wake ff0 = wake ff \<and> wake_list ff0 = wake_list ff
       \<and> x_grid ff0 = x_grid ff \<and> y_grid ff0 = y_grid ff \<and> z_grid ff0 = z_grid ff
       \<and> length (turbine_map ff0) = length (turbine_map ff)
       \<and> u_wake = zeros (length (u_grid ff))
       \<and> length (turbine_map ff) \<le> length (turbine_turbulence_intensity (wind_map ff))
       \<and> (\<forall>k < length (turbine_map ff).
            intensity_of ff0 k = turbine_turbulence_intensity (wind_map ff) ! k)"
proof -
  from assms obtain ff1 center where r: "reinitialize_turbines E ff = Inr ff1"
    and f: "rotate_frame E center ff1 = (F, u_wake, ff0)"
    unfolding prepare_Inr_iff by blast
  from reinitialize_turbines_Inr [OF r] obtain items where
    ff1: "ff1 = ff\<lparr>turbine_map := items\<rparr>"
    and len: "length items = length (turbine_map ff)"
    and bound: "length (turbine_map ff) \<le> length (turbine_turbulence_intensity (wind_map ff))"
    and nth: "\<forall>k < length (turbine_map ff).
                 items ! k = (fst (turbine_map ff ! k),
                   reset_velocities E ((snd (turbine_map ff ! k))
                     \<lparr>turbulence_intensity := turbine_turbulence_intensity (wind_map ff) ! k\<rparr>))"
    by blast
  note rf = rotate_frame_fields [OF f]
  note ri = rotated_items_fst [of E "turbine_wind_direction (wind_map ff1)" center "turbine_map ff1"]
  have tm: "turbine_map ff1 = items" by (simp add: ff1)
  have l0: "length (turbine_map ff0) = length (turbine_map ff)"
    using ri len by (simp add: rf(10) tm)
  have int: "intensity_of ff0 k = turbine_turbulence_intensity (wind_map ff) ! k"
    if k: "k < length (turbine_map ff)" for k
  proof -
    have "snd (turbine_map ff0 ! k) = snd (items ! k)"
      using ri k len by (simp add: rf(10) tm)
    also have "\<dots> = reset_velocities E ((snd (turbine_map ff ! k))
                     \<lparr>turbulence_intensity := turbine_turbulence_intensity (wind_map ff) ! k\<rparr>)"
      using nth k by simp
    finally show ?thesis
      by (simp add: intensity_of_def get_turbine_def reset_velocities_def)
  qed
  have same: "u_grid ff1 = u_grid ff" "u_initial ff1 = u_initial ff" "wind_map ff1 = wind_map ff"
    "wake ff1 = wake ff" "wake_list ff1 = wake_list ff"
    "x_grid ff1 = x_grid ff" "y_grid ff1 = y_grid ff" "z_grid ff1 = z_grid ff"
    by (simp_all add: ff1)
  show ?thesis
    using int bound l0 by (simp add: rf(1-9) same)
qed

lemma calculate_wake_Inr:
  "calculate_wake E no_wake points track ff = Inr ff' \<longleftrightarrow>
     (\<exists>F u_wake ff0 u_wake' ff1.
        prepare E (enter E points track ff) = Inr (F, u_wake, ff0)
        \<and> wake_loop E no_wake track F (sorted_map F) (u_wake, ff0) = Inr (u_wake', ff1)
        \<and> finish E no_wake F (u_wake', ff1) = Inr ff')"
  unfolding calculate_wake_def
  by (auto simp: after_Inr_iff)

lemma finish_no_wake:
  "finish E True F (u_wake, ff) = Inr ff'
     \<Longrightarrow> u_grid ff' = u_grid ff \<and> u_initial ff' = u_initial ff \<and> wind_map ff' = wind_map ff
         \<and> turbine_map ff' = turbine_map ff \<and> wake_list ff' = wake_list ff"
  unfolding finish_def by (auto simp: case_prod_beta split: if_splits)

lemma finish_Inr:
  "finish E no_wake F (u_wake, ff) = Inr ff'
     \<Longrightarrow> u_initial ff' = u_initial ff \<and> wind_map ff' = wind_map ff
         \<and> turbine_map ff' = turbine_map ff \<and> wake_list ff' = wake_list ff \<and> wake ff' = wake ff
         \<and> (if no_wake then u_grid ff' = u_grid ff
             else arr_sub (u_initial ff) u_wake = Inr (u_grid ff'))"
  unfolding finish_def by (auto simp: case_prod_beta after_Inr_iff split: if_splits)

lemma enter_no_points:
  "u_initial (enter E None track ff) = u_initial ff
   \<and> wind_map (enter E None track ff) = wind_map ff
   \<and> wake (enter E None track ff) = wake ff
   \<and> turbine_map (enter E None track ff) = turbine_map ff
   \<and> u_grid (enter E None track ff)
       = (if model_grid_resolution (wake ff) \<noteq> None then u_initial ff else u_grid ff)"
  by (simp add: enter_def reset_uvw_def Let_def)

lemma carried_fields:
  "carried a b \<Longrightarrow> u_grid b = u_grid a \<and> u_initial b = u_initial a \<and> wind_map b = wind_map a
     \<and> wake b = wake a \<and> length (turbine_map b) = length (turbine_map a)"
proof -
  assume "carried a b"
  then have s: "same_setting a b" by (simp add: carried_def)
  from same_setting_length [OF s] s show ?thesis by (simp add: same_setting_def)
qed

section \<open>Running the row of three turbines\<close>

lemma sqrt_added_ambient: "sqrt ((2 / 25)\<^sup>2 + (3 / 50)\<^sup>2) = 1 / 10"
  by (rule real_sqrt_unique) (simp_all add: power2_eq_square)

lemma sqrt_waked_ambient: "sqrt ((7 / 40)\<^sup>2 + (3 / 50)\<^sup>2) = 37 / 200"
  by (rule real_sqrt_unique) (simp_all add: power2_eq_square)

lemmas row_defs = row_farm_def row_ext_def row_turbine_def row_coord_def samples_at_def intensities_def
  calculate_wake_def enter_def prepare_def center_of_def rotate_frame_def finish_def
  reinitialize_turbines_def reset_velocities_def
  getitem_def np_min_def np_max_def rotated_items_def sorted_in_x_as_list_def zeros_def
  wake_step_def lookup_index_def matching_indices_def turbine_grid_def turbine_wake_def
  get_turbine_def set_turbine_def compute_turbine_velocity_deficit_def turbulence_propagation_def
  propagates_def propagate_one_def in_influence_def wake_overlap_def calculate_area_overlap_def
  arr_sub_def arr_add_def broadcast2_def np_divide_def positive_def updated_intensity_def combine_wake_def

lemma intensities_Inr:
  "intensities r = Inr l \<Longrightarrow> \<exists>ff. r = Inr ff \<and> length (turbine_map ff) = length l"
  by (cases r) (auto simp: intensities_def)

section \<open>No-wake mode leaves the ambient streamwise field\<close>

text \<open>
  C1. After \<open>reset_uvw()\<close>, a call \<open>calculate_wake(no_wake=True)\<close> that returns leaves
  \<open>u\<close> equal to \<open>u_initial\<close> at every grid point, and \<open>u_initial\<close> as it was, whatever
  the state, the wake models and the \<open>track_n_upstream_wakes\<close> flag.
\<close>

theorem no_wake_keeps_ambient_field:
  assumes "calculate_wake E True None track (reset_uvw ff) = Inr ff'"
  shows "u_grid ff' = u_initial ff' \<and> u_initial ff' = u_initial ff"
proof -
  let ?s = "enter E None track (reset_uvw ff)"
  from assms obtain F u_wake ff0 u_wake' ff1 where
    p: "prepare E ?s = Inr (F, u_wake, ff0)"
    and l: "wake_loop E True track F (sorted_map F) (u_wake, ff0) = Inr (u_wake', ff1)"
    and f: "finish E True F (u_wake', ff1) = Inr ff'"
    unfolding calculate_wake_Inr by blast
  have s: "u_grid ?s = u_initial ff \<and> u_initial ?s = u_initial ff"
    by (simp add: enter_no_points) (simp add: reset_uvw_def)
  from prepare_Inr [OF p] s have 0: "u_grid ff0 = u_initial ff \<and> u_initial ff0 = u_initial ff"
    by simp
  from wake_loop_carried [OF l] have "carried ff0 ff1" by simp
  from carried_fields [OF this] 0 have 1: "u_grid ff1 = u_initial ff \<and> u_initial ff1 = u_initial ff"
    by simp
  from finish_no_wake [OF f] 1 show ?thesis by simp
qed

text \<open>The row of three turbines, in no-wake mode.\<close>

theorem no_wake_keeps_ambient_field_witness:
  "\<exists>ff'. calculate_wake row_ext True None False
            (reset_uvw (row_farm ''crespo_hernandez'' [0, 500, 1000]
               [(3 / 50, []), (3 / 50, []), (3 / 50, [])])) = Inr ff'
         \<and> u_grid ff' = u_initial ff' \<and> u_initial ff' = [8, 8, 8]"
proof -
  let ?ff = "row_farm ''crespo_hernandez'' [0, 500, 1000] [(3 / 50, []), (3 / 50, []), (3 / 50, [])]"
  have "intensities (calculate_wake row_ext True None False (reset_uvw ?ff))
          = Inr [3 / 50, 1 / 10, 1 / 10]"
    by (simp add: row_defs reset_uvw_def upt_rec sqrt_added_ambient Let_def)
  then obtain ff' where r: "calculate_wake row_ext True None False (reset_uvw ?ff) = Inr ff'"
    using intensities_Inr by blast
  from no_wake_keeps_ambient_field [OF r] have "u_grid ff' = u_initial ff'"
    and "u_initial ff' = u_initial ?ff" by simp_all
  moreover have "u_initial ?ff = [8, 8, 8]" by (simp add: row_farm_def)
  ultimately show ?thesis using r by simp
qed

section \<open>Turbulence intensity within a call and between calls\<close>

text \<open>
  C2, as the code has it. Every call resets each turbine's intensity to the wind map's
  ambient value and the propagation inside the call only raises it: when a call returns,
  every turbine's intensity is at least the ambient value the wind map holds for it.
\<close>

theorem intensity_at_least_ambient:
  assumes "calculate_wake E no_wake points track ff = Inr ff'"
    and "k < length (turbine_map ff')"
  shows "turbine_turbulence_intensity (wind_map ff') ! k \<le> intensity_of ff' k"
proof -
  let ?s = "enter E points track ff"
  from assms obtain F u_wake ff0 u_wake' ff1 where
    p: "prepare E ?s = Inr (F, u_wake, ff0)"
    and l: "wake_loop E no_wake track F (sorted_map F) (u_wake, ff0) = Inr (u_wake', ff1)"
    and f: "finish E no_wake F (u_wake', ff1) = Inr ff'"
    unfolding calculate_wake_Inr by blast
  from wake_loop_carried [OF l] have c: "carried ff0 ff1" by simp
  note cf = carried_fields [OF c]
  note ff = finish_Inr [OF f]
  note pp = prepare_Inr [OF p]
  have k: "k < length (turbine_map ?s)" using assms(2) ff cf pp by simp
  have "intensity_of ff0 k = turbine_turbulence_intensity (wind_map ?s) ! k" using pp k by simp
  moreover have "intensity_of ff0 k \<le> intensity_of ff1 k" using c by (simp add: carried_def)
  moreover have "intensity_of ff' k = intensity_of ff1 k"
    using ff by (simp add: intensity_of_def get_turbine_def)
  moreover have "wind_map ff' = wind_map ?s" using ff cf pp by simp
  ultimately show ?thesis by simp
qed

text \<open>The third turbine of the row after a call with wakes.\<close>

theorem intensity_at_least_ambient_witness:
  "\<exists>ff'. calculate_wake row_ext False None False
            (row_farm ''crespo_hernandez'' [0, 500, 1000]
               [(3 / 50, []), (3 / 50, []), (3 / 50, [])]) = Inr ff'
         \<and> 2 < length (turbine_map ff')
         \<and> turbine_turbulence_intensity (wind_map ff') ! 2 \<le> intensity_of ff' 2"
proof -
  let ?ff = "row_farm ''crespo_hernandez'' [0, 500, 1000] [(3 / 50, []), (3 / 50, []), (3 / 50, [])]"
  have "intensities (calculate_wake row_ext False None False ?ff)
          = Inr [3 / 50, 1 / 10, 37 / 200]"
    by (simp add: row_defs upt_rec sqrt_added_ambient sqrt_waked_ambient Let_def)
  then obtain ff' where r: "calculate_wake row_ext False None False ?ff = Inr ff'"
    and l: "length (turbine_map ff') = length [3 / 50, 1 / 10, 37 / 200 :: real]"
    using intensities_Inr by blast
  have k: "2 < length (turbine_map ff')" using l by simp
  from intensity_at_least_ambient [OF r k] r k show ?thesis by blast
qed

text \<open>
  C2, as stated, fails. On the row of three turbines a call with wakes leaves the third
  turbine at 0.185: the second turbine stands in the first one's wake and adds more
  turbulence. The next call on the same engine, in no-wake mode, starts again from the
  ambient 0.06 and leaves the third turbine at 0.1.
\<close>

theorem intensity_decreases_between_calls:
  "intensities (calculate_wake row_ext False None False
      (row_farm ''crespo_hernandez'' [0, 500, 1000] [(3 / 50, []), (3 / 50, []), (3 / 50, [])]))
     = Inr [3 / 50, 1 / 10, 37 / 200]
   \<and> intensities (after (calculate_wake row_ext False None False
        (row_farm ''crespo_hernandez'' [0, 500, 1000] [(3 / 50, []), (3 / 50, []), (3 / 50, [])]))
        (calculate_wake row_ext True None False))
     = Inr [3 / 50, 1 / 10, 1 / 10]"
  by (simp add: row_defs upt_rec sqrt_added_ambient sqrt_waked_ambient Let_def)

section \<open>The area overlap is the share of sample points away from the freestream\<close>

lemma count_by_index:
  assumes "length ws = length fs"
  shows "length (filter (\<lambda>p. p \<le> c) (map2 (\<lambda>p q. p - q) fs ws))
           = card {i. i < length fs \<and> fs ! i - ws ! i \<le> (c :: real)}"
proof -
  have "length (filter (\<lambda>p. p \<le> c) (map2 (\<lambda>p q. p - q) fs ws))
          = card {i. i < length (map2 (\<lambda>p q. p - q) fs ws)
                     \<and> (map2 (\<lambda>p q. p - q) fs ws) ! i \<le> c}"
    by (rule length_filter_conv_card)
  also have "{i. i < length (map2 (\<lambda>p q. p - q) fs ws) \<and> (map2 (\<lambda>p q. p - q) fs ws) ! i \<le> c}
               = {i. i < length fs \<and> fs ! i - ws ! i \<le> c}"
    using assms by auto
  finally show ?thesis .
qed

text \<open>
  C3, as the code has it. For two arrays of the same shape and a turbine whose grid point
  count is not zero, \<open>_calculate_area_overlap\<close> returns
  \<open>(turbine.grid_point_count - count) / turbine.grid_point_count\<close>, where \<open>count\<close> is the
  number of sample points whose freestream-minus-wake difference is at most 0.05. The
  quotient is taken over the grid point count, whatever the number of samples: the value
  lies in [0, 1] when the grid point count is positive and at least the number of samples;
  it is 0 when the wake velocities equal the freestream velocities and the grid point count
  is the number of samples; it is 1 when every freestream-minus-wake difference exceeds 0.05.
\<close>

theorem area_overlap_fraction:
  assumes len: "length wake_velocities = length freestream_velocities"
    and nz: "grid_point_count turbine \<noteq> 0"
  shows "\<exists>r. calculate_area_overlap wake_velocities freestream_velocities turbine = Inr (Some r)
           \<and> r = (real_of_int (grid_point_count turbine)
                    - real (card {i. i < length freestream_velocities
                                     \<and> freestream_velocities ! i - wake_velocities ! i \<le> 5 / 100}))
                  / real_of_int (grid_point_count turbine)
           \<and> (0 < grid_point_count turbine
                \<and> int (length freestream_velocities) \<le> grid_point_count turbine
                \<longrightarrow> 0 \<le> r \<and> r \<le> 1)
           \<and> (wake_velocities = freestream_velocities
                \<and> int (length freestream_velocities) = grid_point_count turbine \<longrightarrow> r = 0)
           \<and> ((\<forall>i < length freestream_velocities.
                  freestream_velocities ! i - wake_velocities ! i > 5 / 100) \<longrightarrow> r = 1)"
proof -
  define d where "d = map2 (\<lambda>p q. p - q) freestream_velocities wake_velocities"
  define n where "n = grid_point_count turbine"
  define S where "S = {i. i < length freestream_velocities
                          \<and> freestream_velocities ! i - wake_velocities ! i \<le> 5 / 100}"
  define r where "r = (real_of_int n - real (card S)) / real_of_int n"
  have sub: "arr_sub freestream_velocities wake_velocities = Inr d"
    using len by (simp add: arr_sub_def broadcast2_def d_def)
  have cnt: "length (filter (\<lambda>p. p \<le> 5 / 100) d) = card S"
    unfolding d_def S_def by (rule count_by_index [OF len])
  have n0: "n \<noteq> 0" using nz by (simp add: n_def)
  have "calculate_area_overlap wake_velocities freestream_velocities turbine
          = Inr (np_divide (real_of_int (n - int (card S))) (real_of_int n))"
    by (simp only: calculate_area_overlap_def sub after.simps Let_def cnt n_def)
  then have val: "calculate_area_overlap wake_velocities freestream_velocities turbine = Inr (Some r)"
    using n0 by (simp add: np_divide_def r_def)
  have fin: "finite S" by (simp add: S_def)
  have sub_all: "S \<subseteq> {..<length freestream_velocities}" by (auto simp: S_def)
  have cle: "card S \<le> length freestream_velocities"
    using card_mono [OF _ sub_all] by simp
  have range: "0 \<le> r \<and> r \<le> 1"
    if "0 < n" and "int (length freestream_velocities) \<le> n"
  proof -
    have "real (card S) \<le> real_of_int n" using cle that(2) by linarith
    then show ?thesis using that(1) by (simp add: r_def)
  qed
  have same: "r = 0"
    if "wake_velocities = freestream_velocities" and "int (length freestream_velocities) = n"
  proof -
    have "S = {..<length freestream_velocities}" using that(1) by (auto simp: S_def)
    then have "real (card S) = real_of_int n" using that(2) by simp
    then show ?thesis by (simp add: r_def)
  qed
  have far: "r = 1"
    if "\<forall>i < length freestream_velocities.
          freestream_velocities ! i - wake_velocities ! i > 5 / 100"
  proof -
    have "S = {}" using that by (fastforce simp: S_def)
    then show ?thesis using n0 by (simp add: r_def)
  qed
  show ?thesis
    using val range same far unfolding r_def S_def n_def by blast
qed

text \<open>Four samples, three of them within 0.05 of the freestream, on a turbine of four grid
  points: the overlap is 1/4.\<close>

theorem area_overlap_fraction_witness:
  "length [6, 8, 8, 159 / 20 :: real] = length [8, 8, 8, 8 :: real]
   \<and> grid_point_count ((row_turbine (3 / 50) [])\<lparr>grid_point_count := 4\<rparr>) \<noteq> 0
   \<and> calculate_area_overlap [6, 8, 8, 159 / 20] [8, 8, 8, 8]
        ((row_turbine (3 / 50) [])\<lparr>grid_point_count := 4\<rparr>) = Inr (Some (1 / 4))
   \<and> (\<exists>r. calculate_area_overlap [6, 8, 8, 159 / 20] [8, 8, 8, 8]
             ((row_turbine (3 / 50) [])\<lparr>grid_point_count := 4\<rparr>) = Inr (Some r)
           \<and> 0 \<le> r \<and> r \<le> 1)"
proof -
  let ?t = "(row_turbine (3 / 50) [])\<lparr>grid_point_count := 4\<rparr>"
  have len: "length [6, 8, 8, 159 / 20 :: real] = length [8, 8, 8, 8 :: real]" by simp
  have nz: "grid_point_count ?t \<noteq> 0" by (simp add: row_turbine_def)
  have bounds: "0 < grid_point_count ?t \<and> int (length [8, 8, 8, 8 :: real]) \<le> grid_point_count ?t"
    by (simp add: row_turbine_def)
  have v: "calculate_area_overlap [6, 8, 8, 159 / 20] [8, 8, 8, 8] ?t = Inr (Some (1 / 4))"
    by (simp add: calculate_area_overlap_def arr_sub_def broadcast2_def np_divide_def
          row_turbine_def)
  from area_overlap_fraction [OF len nz] bounds
  obtain r where "calculate_area_overlap [6, 8, 8, 159 / 20] [8, 8, 8, 8] ?t = Inr (Some r)"
    "0 \<le> r" "r \<le> 1"
    by blast
  with len nz v show ?thesis by blast
qed

text \<open>
  C3, as stated, fails. Two samples equal to the freestream on a turbine whose grid point
  count is 1 give the overlap -1; one sample equal to the freestream on a turbine whose
  grid point count is 4 gives 3/4, not 0.
\<close>

theorem area_overlap_outside_unit_interval:
  "calculate_area_overlap [8, 8] [8, 8] (row_turbine (3 / 50) []) = Inr (Some (- 1))
   \<and> calculate_area_overlap [8] [8] ((row_turbine (3 / 50) [])\<lparr>grid_point_count := 4\<rparr>)
       = Inr (Some (3 / 4))"
  by (simp add: calculate_area_overlap_def arr_sub_def broadcast2_def np_divide_def
        row_turbine_def)

section \<open>The gate on the turbulence model and the coordinate lookup\<close>

lemma turbine_wake_keeps:
  "turbine_wake E F rotated_x rotated_y coord tid u_wake ff = (ff1, deficit)
     \<Longrightarrow> wake_list ff1 = wake_list ff \<and> wake ff1 = wake ff"
  by (auto simp: turbine_wake_def Let_def set_turbine_def)

lemma combine_wake_keeps:
  "combine_wake E no_wake deficit (u_wake, ff) = Inr (u_wake', ff')
     \<Longrightarrow> wake_list ff' = wake_list ff \<and> wake ff' = wake ff"
  unfolding combine_wake_def
  by (cases deficit) (auto simp: after_Inr_iff Let_def split: if_splits)

lemma propagates_cong: "wake a = wake b \<Longrightarrow> propagates a = propagates b"
  by (simp add: propagates_def)

lemma wake_step_skip:
  assumes "wake_step E no_wake track F item (u_wake, ff) = Inr (u_wake', ff')"
    and "\<not> propagates ff"
  shows "(\<forall>j. intensity_of ff' j = intensity_of ff j) \<and> wake_list ff' = wake_list ff
       \<and> wake ff' = wake ff"
proof -
  obtain coord tid where item: "item = (coord, tid)" by (cases item)
  from assms(1) obtain idx rotated_x rotated_y ff1 tu tv tw ff2 where
    tw: "turbine_wake E F rotated_x rotated_y coord tid u_wake ff = (ff1, tu, tv, tw)"
    and tp: "turbulence_propagation E track F rotated_x rotated_y coord tid tu ff1 = Inr ff2"
    and cw: "combine_wake E no_wake (tu, tv, tw) (u_wake, ff2) = Inr (u_wake', ff')"
    unfolding item wake_step_Inr by blast
  note a = turbine_wake_carried [OF tw] turbine_wake_keeps [OF tw]
  have "\<not> propagates ff1" using a assms(2) propagates_cong by blast
  with tp have ff2: "ff2 = ff1" by (simp add: turbulence_propagation_def)
  note b = combine_wake_carried [OF cw] combine_wake_keeps [OF cw]
  show ?thesis using a b by (simp add: ff2)
qed

lemma wake_loop_skip:
  "wake_loop E no_wake track F items (u_wake, ff) = Inr (u_wake', ff') \<Longrightarrow> \<not> propagates ff
     \<Longrightarrow> (\<forall>j. intensity_of ff' j = intensity_of ff j) \<and> wake_list ff' = wake_list ff"
proof (induction items arbitrary: u_wake ff)
  case Nil
  then show ?case by simp
next
  case (Cons item items)
  from Cons.prems(1) obtain uw1 ff1 where
    one: "wake_step E no_wake track F item (u_wake, ff) = Inr (uw1, ff1)"
    and rest: "wake_loop E no_wake track F items (uw1, ff1) = Inr (u_wake', ff')"
    by (auto simp: after_Inr_iff)
  note s = wake_step_skip [OF one Cons.prems(2)]
  have "\<not> propagates ff1" using s Cons.prems(2) propagates_cong by blast
  from Cons.IH [OF rest this] s show ?case by simp
qed

text \<open>
  C7. When the turbulence model's name, as the call finds it after the optional rebuild of
  the domain, is neither \<open>crespo_hernandez\<close> nor \<open>ishihara_qian\<close>, the propagation step
  of every turbine returns the flow field as it is, without an error; a call that returns
  leaves every turbine at the wind map's ambient intensity and the counters as the call
  set them up.
\<close>

theorem propagation_skipped_for_other_models:
  assumes "turbulence_model_string (wake (enter E points track ff)) \<noteq> ''crespo_hernandez''"
    and "turbulence_model_string (wake (enter E points track ff)) \<noteq> ''ishihara_qian''"
  shows "(wake ff1 = wake (enter E points track ff)
            \<longrightarrow> turbulence_propagation E track F1 rotated_x rotated_y coord tid turb_u_wake ff1
                  = Inr ff1)
       \<and> (calculate_wake E no_wake points track ff = Inr ff'
            \<longrightarrow> (\<forall>k < length (turbine_map ff').
                    intensity_of ff' k = turbine_turbulence_intensity (wind_map ff') ! k)
                \<and> wake_list ff' = wake_list (enter E points track ff))"
proof (intro conjI impI)
  let ?s = "enter E points track ff"
  have np: "\<not> propagates ?s" using assms by (auto simp: propagates_def)
  show "turbulence_propagation E track F1 rotated_x rotated_y coord tid turb_u_wake ff1 = Inr ff1"
    if "wake ff1 = wake ?s"
    using np propagates_cong [OF that] by (simp add: turbulence_propagation_def)
  assume run: "calculate_wake E no_wake points track ff = Inr ff'"
  then obtain F u_wake ff0 u_wake' ff2 where
    p: "prepare E ?s = Inr (F, u_wake, ff0)"
    and l: "wake_loop E no_wake track F (sorted_map F) (u_wake, ff0) = Inr (u_wake', ff2)"
    and f: "finish E no_wake F (u_wake', ff2) = Inr ff'"
    unfolding calculate_wake_Inr by blast
  note pp = prepare_Inr [OF p]
  have "\<not> propagates ff0" using pp np propagates_cong by blast
  note sk = wake_loop_skip [OF l this]
  from wake_loop_carried [OF l] have c: "carried ff0 ff2" by simp
  note cf = carried_fields [OF c]
  note fi = finish_Inr [OF f]
  show "\<forall>k < length (turbine_map ff').
          intensity_of ff' k = turbine_turbulence_intensity (wind_map ff') ! k"
  proof (intro allI impI)
    fix k assume "k < length (turbine_map ff')"
    then have k: "k < length (turbine_map ?s)" using fi cf pp by simp
    have "intensity_of ff' k = intensity_of ff2 k"
      using fi by (simp add: intensity_of_def get_turbine_def)
    also have "\<dots> = intensity_of ff0 k" using sk by simp
    also have "\<dots> = turbine_turbulence_intensity (wind_map ?s) ! k" using pp k by simp
    also have "wind_map ?s = wind_map ff'" using fi cf pp by simp
    finally show "intensity_of ff' k = turbine_turbulence_intensity (wind_map ff') ! k" .
  qed
  show "wake_list ff' = wake_list ?s" using fi sk pp by simp
qed

lemma lookup_index_Inr: "lookup_index rxs rys c = Inr i \<longleftrightarrow> matching_indices rxs rys c = [i]"
  by (auto simp: lookup_index_def split: list.splits)

lemma lookup_index_Inl:
  "length (matching_indices rxs rys c) \<noteq> 1 \<Longrightarrow> lookup_index rxs rys c = Inl TypeError"
  by (auto simp: lookup_index_def split: list.splits)

lemma wake_step_ambiguous:
  "length (matching_indices (rx F) (ry F) (fst item)) \<noteq> 1
     \<Longrightarrow> wake_step E no_wake track F item st = Inl TypeError"
  by (cases item; cases st) (simp add: wake_step_def lookup_index_Inl)

lemma wake_loop_ambiguous:
  "item \<in> set items \<Longrightarrow> length (matching_indices (rx F) (ry F) (fst item)) \<noteq> 1
     \<Longrightarrow> \<exists>e. wake_loop E no_wake track F items st = Inl e"
proof (induction items arbitrary: st)
  case Nil
  then show ?case by simp
next
  case (Cons first items)
  show ?case
  proof (cases "wake_step E no_wake track F first st")
    case (Inl e)
    then show ?thesis by simp
  next
    case (Inr st')
    with wake_step_ambiguous [OF Cons.prems(2), of E no_wake track st]
    have "item \<noteq> first" by auto
    with Cons.prems(1) have "item \<in> set items" by simp
    from Cons.IH [OF this Cons.prems(2)] Inr show ?thesis by simp
  qed
qed

text \<open>
  C8. A sorted turbine whose rotated coordinate matches no index or several indices of the
  stored coordinate arrays makes its pass of the loop raise, whatever the state, and the
  call abort; a lookup that returns an index has exactly this one match.
\<close>

theorem ambiguous_lookup_aborts:
  assumes "prepare E (enter E points track ff) = Inr (F, u_wake, ff0)"
    and "item \<in> set (sorted_map F)"
    and "length (matching_indices (rx F) (ry F) (fst item)) \<noteq> 1"
  shows "wake_step E no_wake track F item st = Inl TypeError
       \<and> (\<exists>e. calculate_wake E no_wake points track ff = Inl e)
       \<and> (lookup_index rxs rys c = Inr i \<longrightarrow> matching_indices rxs rys c = [i])"
proof (intro conjI)
  show "wake_step E no_wake track F item st = Inl TypeError"
    using assms(3) by (rule wake_step_ambiguous)
  from wake_loop_ambiguous [OF assms(2,3)]
  obtain e where "wake_loop E no_wake track F (sorted_map F) (u_wake, ff0) = Inl e" by blast
  then show "\<exists>e. calculate_wake E no_wake points track ff = Inl e"
    by (simp add: calculate_wake_def assms(1))
  show "lookup_index rxs rys c = Inr i \<longrightarrow> matching_indices rxs rys c = [i]"
    by (simp add: lookup_index_Inr)
qed


text \<open>
  The row of three turbines with the turbulence model \<open>direct\<close>: the intensities 0.1 left
  in the turbines are replaced by the ambient 0.06 and nothing is added.
\<close>

theorem propagation_skipped_for_other_models_witness:
  "turbulence_model_string (wake (enter row_ext None False
      (row_farm ''direct'' [0, 500, 1000] [(1 / 10, []), (1 / 10, []), (1 / 10, [])])))
     \<noteq> ''crespo_hernandez''
   \<and> turbulence_model_string (wake (enter row_ext None False
      (row_farm ''direct'' [0, 500, 1000] [(1 / 10, []), (1 / 10, []), (1 / 10, [])])))
     \<noteq> ''ishihara_qian''
   \<and> (\<exists>ff'. calculate_wake row_ext False None False
         (row_farm ''direct'' [0, 500, 1000] [(1 / 10, []), (1 / 10, []), (1 / 10, [])]) = Inr ff'
        \<and> intensity_of ff' 2 = 3 / 50)"
proof -
  let ?ff = "row_farm ''direct'' [0, 500, 1000] [(1 / 10, []), (1 / 10, []), (1 / 10, [])]"
  have n1: "turbulence_model_string (wake (enter row_ext None False ?ff)) \<noteq> ''crespo_hernandez''"
    by (simp add: enter_def row_farm_def Let_def)
  have n2: "turbulence_model_string (wake (enter row_ext None False ?ff)) \<noteq> ''ishihara_qian''"
    by (simp add: enter_def row_farm_def Let_def)
  have "intensities (calculate_wake row_ext False None False ?ff) = Inr [3 / 50, 3 / 50, 3 / 50]"
    by (simp add: row_defs upt_rec Let_def)
  then obtain ff' where r: "calculate_wake row_ext False None False ?ff = Inr ff'"
    and l: "length (turbine_map ff') = length [3 / 50, 3 / 50, 3 / 50 :: real]"
    using intensities_Inr by blast
  have k: "2 < length (turbine_map ff')" using l by simp
  from propagation_skipped_for_other_models [OF n1 n2, where no_wake = False and ff' = ff'] r k
  have i: "intensity_of ff' 2 = turbine_turbulence_intensity (wind_map ff') ! 2"
    by blast
  from calculate_wake_Inr [of row_ext False None False ?ff ff'] r
  obtain F u_wake ff0 u_wake' ff1 where
    p: "prepare row_ext (enter row_ext None False ?ff) = Inr (F, u_wake, ff0)"
    and lo: "wake_loop row_ext False False F (sorted_map F) (u_wake, ff0) = Inr (u_wake', ff1)"
    and f: "finish row_ext False F (u_wake', ff1) = Inr ff'" by blast
  from wake_loop_carried [OF lo] have "carried ff0 ff1" by simp
  from carried_fields [OF this] prepare_Inr [OF p] finish_Inr [OF f]
  have "wind_map ff' = wind_map (enter row_ext None False ?ff)" by simp
  then have "turbine_turbulence_intensity (wind_map ff') ! 2 = 3 / 50"
    by (simp add: enter_def row_farm_def Let_def)
  with i n1 n2 r show ?thesis by simp
qed

text \<open>
  Two turbines of the row at the same position: the lookup of the second finds two indices.
\<close>

theorem ambiguous_lookup_aborts_witness:
  "\<exists>F u_wake ff0.
      prepare row_ext (enter row_ext None False
        (row_farm ''crespo_hernandez'' [0, 500, 500] [(3 / 50, []), (3 / 50, []), (3 / 50, [])]))
        = Inr (F, u_wake, ff0)
      \<and> (row_coord 500, 1) \<in> set (sorted_map F)
      \<and> length (matching_indices (rx F) (ry F) (fst (row_coord 500, 1 :: nat))) \<noteq> 1
      \<and> wake_step row_ext False False F (row_coord 500, 1) (u_wake, ff0) = Inl TypeError
      \<and> (\<exists>e. calculate_wake row_ext False None False
            (row_farm ''crespo_hernandez'' [0, 500, 500] [(3 / 50, []), (3 / 50, []), (3 / 50, [])])
            = Inl e)"
proof -
  let ?ff = "row_farm ''crespo_hernandez'' [0, 500, 500] [(3 / 50, []), (3 / 50, []), (3 / 50, [])]"
  have "\<exists>F u_wake ff0. prepare row_ext (enter row_ext None False ?ff) = Inr (F, u_wake, ff0)
          \<and> rx F = [0, 500, 500] \<and> ry F = [0, 0, 0]
          \<and> (row_coord 500, 1) \<in> set (sorted_map F)"
    by (simp add: row_defs upt_rec Let_def)
  then obtain F u_wake ff0 where
    p: "prepare row_ext (enter row_ext None False ?ff) = Inr (F, u_wake, ff0)"
    and x: "rx F = [0, 500, 500]" and y: "ry F = [0, 0, 0]"
    and m: "(row_coord 500, 1) \<in> set (sorted_map F)"
    by blast
  have a: "length (matching_indices (rx F) (ry F) (fst (row_coord 500, 1 :: nat))) \<noteq> 1"
    by (simp add: x y matching_indices_def row_coord_def upt_rec)
  from ambiguous_lookup_aborts [OF p m a, where no_wake = False and st = "(u_wake, ff0)"] p m a
  show ?thesis by blast
qed

section \<open>The update of a downstream turbine's intensity\<close>

lemma intensities_nth:
  "intensities r = Inr l \<Longrightarrow> \<exists>ff. r = Inr ff \<and> length (turbine_map ff) = length l
     \<and> (\<forall>k < length l. intensity_of ff k = l ! k)"
  by (cases r) (auto simp: intensities_def intensity_of_def get_turbine_def)

lemma propagate_one_update:
  assumes "propagate_one E track F rotated_x rotated_y coord tid turb_u_wake (coord_ti, k) ff = Inr ff'"
    and "in_influence coord (rotor_diameter (get_turbine ff tid)) coord_ti"
    and "wake_overlap E F rotated_x rotated_y tid turb_u_wake coord_ti k ff = Inr (Some a)"
    and "0 < a"
  shows "\<exists>idx. lookup_index (rx F) (ry F) coord_ti = Inr idx
          \<and> idx < length (turbine_turbulence_intensity (wind_map ff))
          \<and> ff' = (set_turbine ff k
                 ((get_turbine ff k)\<lparr>turbulence_intensity :=
                    updated_intensity a
                      (turbulence_function E (turbine_turbulence_intensity (wind_map ff) ! idx)
                         coord_ti coord (get_turbine ff tid))
                      (turbine_turbulence_intensity (wind_map ff) ! idx)
                      (turbulence_intensity (get_turbine ff k))\<rparr>))
               \<lparr>wake_list := (if track then (wake_list ff)(k \<mapsto> Suc (the (wake_list ff k)))
                              else wake_list ff)\<rparr>"
  using assms
  unfolding propagate_one_def
  by (auto simp: after_Inr_iff positive_def getitem_def set_turbine_def Let_def
           split: if_splits option.splits)

text \<open>
  C4, as the code has it. In a pass of the propagation over a turbine in the influence
  zone, when the area overlap is positive, the turbine's intensity becomes the larger of
  its current intensity and the root-sum-of-squares of (area overlap times the model's
  added turbulence) with the wind map's ambient intensity at the turbine's looked-up
  index; the update never lowers it.
\<close>

theorem intensity_update_from_ambient:
  assumes run: "propagate_one E track F rotated_x rotated_y coord tid turb_u_wake (coord_ti, k) ff = Inr ff'"
    and k: "k < length (turbine_map ff)"
    and zone: "in_influence coord (rotor_diameter (get_turbine ff tid)) coord_ti"
    and overlap: "wake_overlap E F rotated_x rotated_y tid turb_u_wake coord_ti k ff = Inr (Some a)"
    and pos: "0 < a"
  shows "\<exists>idx. lookup_index (rx F) (ry F) coord_ti = Inr idx
           \<and> idx < length (turbine_turbulence_intensity (wind_map ff))
           \<and> intensity_of ff' k
               = max (sqrt ((a * turbulence_function E (turbine_turbulence_intensity (wind_map ff) ! idx)
                                   coord_ti coord (get_turbine ff tid))\<^sup>2
                            + (turbine_turbulence_intensity (wind_map ff) ! idx)\<^sup>2))
                     (intensity_of ff k)
           \<and> intensity_of ff k \<le> intensity_of ff' k"
proof -
  from propagate_one_update [OF run zone overlap pos]
  obtain idx where i: "lookup_index (rx F) (ry F) coord_ti = Inr idx"
    and b: "idx < length (turbine_turbulence_intensity (wind_map ff))"
    and ff': "ff' = (set_turbine ff k
                 ((get_turbine ff k)\<lparr>turbulence_intensity :=
                    updated_intensity a
                      (turbulence_function E (turbine_turbulence_intensity (wind_map ff) ! idx)
                         coord_ti coord (get_turbine ff tid))
                      (turbine_turbulence_intensity (wind_map ff) ! idx)
                      (turbulence_intensity (get_turbine ff k))\<rparr>))
               \<lparr>wake_list := (if track then (wake_list ff)(k \<mapsto> Suc (the (wake_list ff k)))
                              else wake_list ff)\<rparr>"
    by blast
  have "intensity_of ff' k = updated_intensity a
                      (turbulence_function E (turbine_turbulence_intensity (wind_map ff) ! idx)
                         coord_ti coord (get_turbine ff tid))
                      (turbine_turbulence_intensity (wind_map ff) ! idx)
                      (intensity_of ff k)"
    unfolding ff' intensity_wake_list intensity_set_turbine using k
    by (simp add: intensity_of_def)
  then show ?thesis
    using i b by (auto simp: updated_intensity_def)
qed

lemma sqrt_claimed: "37 / 200 < sqrt ((1 * (7 / 40))\<^sup>2 + (1 / 10)\<^sup>2)"
  by (rule real_less_rsqrt) (simp add: power2_eq_square)

text \<open>
  C4, as stated, fails. In the second pass of a call on the row of three turbines, the
  third turbine has already been raised to 0.1 by the first turbine's wake; the overlap is
  1 and the second turbine adds 0.175. The code combines 0.175 with the ambient 0.06 and
  stores 0.185; combined with the turbine's existing intensity 0.1 the result would be
  above 0.2.
\<close>

theorem intensity_update_not_from_existing:
  "intensities (propagate_one row_ext False row_frame [0, 500, 1000] [0, 0, 0] (row_coord 500) 1
      [0, 0, 2] (row_coord 1000, 2)
      (row_farm ''crespo_hernandez'' [0, 500, 1000] [(3 / 50, [8]), (1 / 10, [6]), (1 / 10, [0])]))
     = Inr [3 / 50, 1 / 10, 37 / 200]
   \<and> wake_overlap row_ext row_frame [0, 500, 1000] [0, 0, 0] 1 [0, 0, 2] (row_coord 1000) 2
        (row_farm ''crespo_hernandez'' [0, 500, 1000] [(3 / 50, [8]), (1 / 10, [6]), (1 / 10, [0])])
       = Inr (Some 1)
   \<and> turbulence_function row_ext (3 / 50) (row_coord 1000) (row_coord 500) (row_turbine (1 / 10) [6])
       = 7 / 40
   \<and> claimed_intensity 1 (7 / 40) (1 / 10) \<noteq> 37 / 200"
proof -
  have "claimed_intensity 1 (7 / 40) (1 / 10) > 37 / 200"
    using sqrt_claimed by (simp add: claimed_intensity_def)
  then show ?thesis
    by (simp add: row_defs row_frame_def upt_rec sqrt_waked_ambient Let_def)
qed

text \<open>
  The same pass on the row.
\<close>

theorem intensity_update_from_ambient_witness:
  "\<exists>ff'. propagate_one row_ext False row_frame [0, 500, 1000] [0, 0, 0] (row_coord 500) 1
      [0, 0, 2] (row_coord 1000, 2)
      (row_farm ''crespo_hernandez'' [0, 500, 1000] [(3 / 50, [8]), (1 / 10, [6]), (1 / 10, [0])])
      = Inr ff'
    \<and> intensity_of ff' 2 = max (sqrt ((1 * (7 / 40))\<^sup>2 + (3 / 50)\<^sup>2)) (1 / 10)"
proof -
  let ?ff = "row_farm ''crespo_hernandez'' [0, 500, 1000] [(3 / 50, [8]), (1 / 10, [6]), (1 / 10, [0])]"
  have "intensities (propagate_one row_ext False row_frame [0, 500, 1000] [0, 0, 0] (row_coord 500) 1
      [0, 0, 2] (row_coord 1000, 2) ?ff) = Inr [3 / 50, 1 / 10, 37 / 200]"
    by (simp add: row_defs row_frame_def upt_rec sqrt_waked_ambient Let_def)
  then obtain ff' where run: "propagate_one row_ext False row_frame [0, 500, 1000] [0, 0, 0]
      (row_coord 500) 1 [0, 0, 2] (row_coord 1000, 2) ?ff = Inr ff'"
    using intensities_Inr by blast
  have k: "2 < length (turbine_map ?ff)" by (simp add: row_farm_def)
  have zone: "in_influence (row_coord 500) (rotor_diameter (get_turbine ?ff 1)) (row_coord 1000)"
    by (simp add: row_defs)
  have overlap: "wake_overlap row_ext row_frame [0, 500, 1000] [0, 0, 0] 1 [0, 0, 2] (row_coord 1000) 2 ?ff
      = Inr (Some 1)"
    by (simp add: row_defs row_frame_def)
  have pos: "(0 :: real) < 1" by simp
  from intensity_update_from_ambient [OF run k zone overlap pos]
  obtain idx where i: "lookup_index (rx row_frame) (ry row_frame) (row_coord 1000) = Inr idx"
    and v: "intensity_of ff' 2 =
       max (sqrt ((1 * turbulence_function row_ext (turbine_turbulence_intensity (wind_map ?ff) ! idx)
                    (row_coord 1000) (row_coord 500) (get_turbine ?ff 1))\<^sup>2
                  + (turbine_turbulence_intensity (wind_map ?ff) ! idx)\<^sup>2))
           (intensity_of ?ff 2)"
    by blast
  from i have "idx = 2"
    by (simp add: row_frame_def row_coord_def lookup_index_def matching_indices_def upt_rec)
  with v have "intensity_of ff' 2 = max (sqrt ((1 * (7 / 40))\<^sup>2 + (3 / 50)\<^sup>2)) (1 / 10)"
    by (simp add: row_defs intensity_of_def)
  with run show ?thesis by blast
qed

section \<open>Which turbines the propagation reaches\<close>

lemma calculate_area_overlap_count:
  "grid_point_count t = grid_point_count t'
     \<Longrightarrow> calculate_area_overlap w f t = calculate_area_overlap w f t'"
  by (simp add: calculate_area_overlap_def)

lemma influenced_cong:
  assumes "u_initial b = u_initial a" and "get_turbine b j = get_turbine a j"
    and "rotor_diameter (get_turbine b tid) = rotor_diameter (get_turbine a tid)"
    and "grid_point_count (get_turbine b tid) = grid_point_count (get_turbine a tid)"
  shows "influenced E F rotated_x rotated_y coord tid turb_u_wake b (c, j)
       = influenced E F rotated_x rotated_y coord tid turb_u_wake a (c, j)"
  unfolding influenced_def wake_overlap_def
  by (simp add: assms(1-3) calculate_area_overlap_count [OF assms(4)])

lemma get_turbine_wake_list: "get_turbine (b\<lparr>wake_list := m\<rparr>) j = get_turbine b j"
  by (simp add: get_turbine_def)

lemma propagate_one_effect:
  assumes run: "propagate_one E track F rotated_x rotated_y coord tid turb_u_wake (c, k) ff = Inr ff1"
  shows "u_initial ff1 = u_initial ff"
    and "j \<noteq> k \<Longrightarrow> get_turbine ff1 j = get_turbine ff j"
    and "j \<noteq> k \<Longrightarrow> wake_list ff1 j = wake_list ff j"
    and "rotor_diameter (get_turbine ff1 t) = rotor_diameter (get_turbine ff t)"
    and "grid_point_count (get_turbine ff1 t) = grid_point_count (get_turbine ff t)"
    and "intensity_of ff1 k \<noteq> intensity_of ff k \<or> wake_list ff1 k \<noteq> wake_list ff k
           \<Longrightarrow> influenced E F rotated_x rotated_y coord tid turb_u_wake ff (c, k)"
proof -
  from propagate_one_cases [OF run]
  consider (same) "ff1 = ff"
    | (raised) a ti m where "in_influence coord (rotor_diameter (get_turbine ff tid)) c"
        "wake_overlap E F rotated_x rotated_y tid turb_u_wake c k ff = Inr (Some a)" "0 < a"
        "ff1 = (set_turbine ff k ((get_turbine ff k)\<lparr>turbulence_intensity := ti\<rparr>))\<lparr>wake_list := m\<rparr>"
        "m = (if track then (wake_list ff)(k \<mapsto> Suc (the (wake_list ff k))) else wake_list ff)"
    by blast
  then have "u_initial ff1 = u_initial ff
      \<and> (j \<noteq> k \<longrightarrow> get_turbine ff1 j = get_turbine ff j)
      \<and> (j \<noteq> k \<longrightarrow> wake_list ff1 j = wake_list ff j)
      \<and> rotor_diameter (get_turbine ff1 t) = rotor_diameter (get_turbine ff t)
      \<and> grid_point_count (get_turbine ff1 t) = grid_point_count (get_turbine ff t)
      \<and> (intensity_of ff1 k \<noteq> intensity_of ff k \<or> wake_list ff1 k \<noteq> wake_list ff k
           \<longrightarrow> influenced E F rotated_x rotated_y coord tid turb_u_wake ff (c, k))"
  proof cases
    case same
    then show ?thesis by simp
  next
    case raised
    have inf: "influenced E F rotated_x rotated_y coord tid turb_u_wake ff (c, k)"
      using raised(1-3) by (simp add: influenced_def positive_def)
    show ?thesis
      unfolding raised(4) get_turbine_wake_list get_set_turbine
      using inf raised(5) by (simp add: set_turbine_fields)
  qed
  then show "u_initial ff1 = u_initial ff"
    and "j \<noteq> k \<Longrightarrow> get_turbine ff1 j = get_turbine ff j"
    and "j \<noteq> k \<Longrightarrow> wake_list ff1 j = wake_list ff j"
    and "rotor_diameter (get_turbine ff1 t) = rotor_diameter (get_turbine ff t)"
    and "grid_point_count (get_turbine ff1 t) = grid_point_count (get_turbine ff t)"
    and "intensity_of ff1 k \<noteq> intensity_of ff k \<or> wake_list ff1 k \<noteq> wake_list ff k
           \<Longrightarrow> influenced E F rotated_x rotated_y coord tid turb_u_wake ff (c, k)"
    by blast+
qed

lemma propagate_changes_only_influenced:
  "propagate E track F rotated_x rotated_y coord tid turb_u_wake items ff = Inr ff'
     \<Longrightarrow> distinct (map snd items)
     \<Longrightarrow> intensity_of ff' j \<noteq> intensity_of ff j \<or> wake_list ff' j \<noteq> wake_list ff j
     \<Longrightarrow> \<exists>coord_ti. (coord_ti, j) \<in> set items
           \<and> influenced E F rotated_x rotated_y coord tid turb_u_wake ff (coord_ti, j)"
proof (induction items arbitrary: ff)
  case Nil
  then show ?case by simp
next
  case (Cons item items)
  obtain c k where item: "item = (c, k)" by (cases item)
  from Cons.prems(1) obtain ff1 where
    one: "propagate_one E track F rotated_x rotated_y coord tid turb_u_wake (c, k) ff = Inr ff1"
    and rest: "propagate E track F rotated_x rotated_y coord tid turb_u_wake items ff1 = Inr ff'"
    unfolding item by (auto simp: after_Inr_iff)
  from Cons.prems(2) have d: "distinct (map snd items)" and fresh: "k \<notin> snd ` set items"
    unfolding item by simp_all
  note eff = propagate_one_effect [OF one]
  show ?case
  proof (cases "intensity_of ff' j \<noteq> intensity_of ff1 j \<or> wake_list ff' j \<noteq> wake_list ff1 j")
    case True
    from Cons.IH [OF rest d True] obtain coord_ti where
      m: "(coord_ti, j) \<in> set items"
      and i: "influenced E F rotated_x rotated_y coord tid turb_u_wake ff1 (coord_ti, j)"
      by blast
    from m fresh have jk: "j \<noteq> k" by force
    have "influenced E F rotated_x rotated_y coord tid turb_u_wake ff1 (coord_ti, j)
        = influenced E F rotated_x rotated_y coord tid turb_u_wake ff (coord_ti, j)"
      by (rule influenced_cong) (simp_all add: eff(1) eff(2) [OF jk] eff(4) eff(5))
    with i m show ?thesis by (auto simp: item)
  next
    case False
    with Cons.prems(3) have ch: "intensity_of ff1 j \<noteq> intensity_of ff j \<or> wake_list ff1 j \<noteq> wake_list ff j"
      by auto
    have "j = k"
    proof (rule ccontr)
      assume "j \<noteq> k"
      from eff(2) [OF this] eff(3) [OF this] ch show False by (simp add: intensity_of_def)
    qed
    with ch eff(6) show ?thesis by (auto simp: item)
  qed
qed

lemma propagate_one_outside:
  "propagate_one E track F rotated_x rotated_y coord tid turb_u_wake item ff = Inr ff'
     \<Longrightarrow> \<not> in_influence coord (rotor_diameter (get_turbine ff tid)) (fst item) \<Longrightarrow> ff' = ff"
  by (cases item) (auto simp: propagate_one_def after_Inr_iff)

lemma propagate_outside:
  "propagate E track F rotated_x rotated_y coord tid turb_u_wake items ff = Inr ff'
     \<Longrightarrow> \<forall>item \<in> set items. \<not> in_influence coord (rotor_diameter (get_turbine ff tid)) (fst item)
     \<Longrightarrow> ff' = ff"
proof (induction items arbitrary: ff)
  case Nil
  then show ?case by simp
next
  case (Cons item items)
  from Cons.prems(1) obtain ff1 where
    one: "propagate_one E track F rotated_x rotated_y coord tid turb_u_wake item ff = Inr ff1"
    and rest: "propagate E track F rotated_x rotated_y coord tid turb_u_wake items ff1 = Inr ff'"
    by (auto simp: after_Inr_iff)
  from propagate_one_outside [OF one] Cons.prems(2) have "ff1 = ff" by simp
  with Cons.IH [of ff] rest Cons.prems(2) show ?case by simp
qed

lemma sorted_map_distinct:
  assumes "prepare E s = Inr (F, u_wake, ff0)"
  shows "distinct (map snd (sorted_map F))"
proof -
  from assms obtain ff1 center where f: "rotate_frame E center ff1 = (F, u_wake, ff0)"
    unfolding prepare_Inr_iff by blast
  define rm where "rm = snd (rotated_items E (turbine_wind_direction (wind_map ff1)) center
                               (turbine_map ff1))"
  have sm: "sorted_map F = sorted_in_x_as_list rm"
    using f [symmetric] by (simp add: rotate_frame_def Let_def case_prod_beta rm_def)
  have "map snd rm = map fst (enumerate 0 (turbine_map ff1))"
    by (simp add: rm_def rotated_items_def comp_def split_def del: map_fst_enumerate)
  then have d: "distinct (map snd rm)" by simp
  then have "distinct rm" and "inj_on snd (set rm)" by (simp_all add: distinct_map)
  then show ?thesis
    by (simp add: sm sorted_in_x_as_list_def distinct_map)
qed

text \<open>
  C6. In the propagation step of a current turbine, over the sorted map the call has
  prepared, a turbine's intensity or upstream-wake counter changes only if the sorted map
  holds it at a coordinate strictly downstream of the current turbine, less than 2 of the
  current turbine's rotor diameters away laterally and at most 15 of them downstream, and
  the area overlap computed for it is positive. When no item of the sorted map stands in
  this zone, as for a single isolated turbine, the step leaves the whole flow field, the
  intensities and the counters as they are.
\<close>

theorem propagation_reaches_only_influenced:
  assumes "prepare E s = Inr (F, u_wake, ff0)"
    and "turbulence_propagation E track F rotated_x rotated_y coord tid turb_u_wake ff = Inr ff'"
  shows "(intensity_of ff' j \<noteq> intensity_of ff j \<or> wake_list ff' j \<noteq> wake_list ff j
            \<longrightarrow> (\<exists>coord_ti. (coord_ti, j) \<in> set (sorted_map F)
                   \<and> x1 coord_ti > x1 coord
                   \<and> \<bar>x2 coord - x2 coord_ti\<bar> < 2 * rotor_diameter (get_turbine ff tid)
                   \<and> x1 coord_ti \<le> 15 * rotor_diameter (get_turbine ff tid) + x1 coord
                   \<and> (\<exists>a. wake_overlap E F rotated_x rotated_y tid turb_u_wake coord_ti j ff
                            = Inr (Some a) \<and> 0 < a)))
       \<and> ((\<forall>item \<in> set (sorted_map F).
              \<not> in_influence coord (rotor_diameter (get_turbine ff tid)) (fst item))
            \<longrightarrow> ff' = ff)"
proof (cases "propagates ff")
  case False
  with assms(2) have "ff' = ff" by (simp add: turbulence_propagation_def)
  then show ?thesis by simp
next
  case True
  with assms(2) have run:
    "propagate E track F rotated_x rotated_y coord tid turb_u_wake (sorted_map F) ff = Inr ff'"
    by (simp add: turbulence_propagation_def)
  note d = sorted_map_distinct [OF assms(1)]
  show ?thesis
  proof (intro conjI impI)
    assume "intensity_of ff' j \<noteq> intensity_of ff j \<or> wake_list ff' j \<noteq> wake_list ff j"
    from propagate_changes_only_influenced [OF run d this]
    obtain coord_ti where m: "(coord_ti, j) \<in> set (sorted_map F)"
      and i: "influenced E F rotated_x rotated_y coord tid turb_u_wake ff (coord_ti, j)"
      by blast
    from i have "in_influence coord (rotor_diameter (get_turbine ff tid)) coord_ti"
      and "\<exists>a. wake_overlap E F rotated_x rotated_y tid turb_u_wake coord_ti j ff = Inr (Some a) \<and> 0 < a"
      by (auto simp: influenced_def positive_def split: sum.splits option.splits)
    with m show "\<exists>coord_ti. (coord_ti, j) \<in> set (sorted_map F)
                     \<and> x1 coord_ti > x1 coord
                     \<and> \<bar>x2 coord - x2 coord_ti\<bar> < 2 * rotor_diameter (get_turbine ff tid)
                     \<and> x1 coord_ti \<le> 15 * rotor_diameter (get_turbine ff tid) + x1 coord
                     \<and> (\<exists>a. wake_overlap E F rotated_x rotated_y tid turb_u_wake coord_ti j ff
                              = Inr (Some a) \<and> 0 < a)"
      unfolding in_influence_def by blast
  next
    assume "\<forall>item \<in> set (sorted_map F).
                \<not> in_influence coord (rotor_diameter (get_turbine ff tid)) (fst item)"
    with propagate_outside [OF run] show "ff' = ff" by blast
  qed
qed

lemma row_prepared:
  "prepare row_ext (enter row_ext None False
      (row_farm ''crespo_hernandez'' [0, 500, 1000] [(3 / 50, []), (3 / 50, []), (3 / 50, [])]))
     = Inr (row_frame, [0, 0, 0],
            row_farm ''crespo_hernandez'' [0, 500, 1000] [(3 / 50, [0]), (3 / 50, [0]), (3 / 50, [0])])"
  by (simp add: row_defs row_frame_def upt_rec Let_def)

text \<open>
  The first turbine of the row raises the second, which stands 500 downstream of it.
\<close>

theorem propagation_reaches_only_influenced_witness:
  "\<exists>ff'. prepare row_ext (enter row_ext None False
      (row_farm ''crespo_hernandez'' [0, 500, 1000] [(3 / 50, []), (3 / 50, []), (3 / 50, [])]))
     = Inr (row_frame, [0, 0, 0],
            row_farm ''crespo_hernandez'' [0, 500, 1000] [(3 / 50, [0]), (3 / 50, [0]), (3 / 50, [0])])
    \<and> turbulence_propagation row_ext False row_frame [0, 500, 1000] [0, 0, 0] (row_coord 0) 0
        [0, 2, 2]
        (row_farm ''crespo_hernandez'' [0, 500, 1000] [(3 / 50, [8]), (3 / 50, [0]), (3 / 50, [0])])
       = Inr ff'
    \<and> intensity_of ff' 1
        \<noteq> intensity_of (row_farm ''crespo_hernandez'' [0, 500, 1000]
                           [(3 / 50, [8]), (3 / 50, [0]), (3 / 50, [0])]) 1
    \<and> (\<exists>coord_ti. (coord_ti, 1) \<in> set (sorted_map row_frame)
          \<and> x1 coord_ti > x1 (row_coord 0)
          \<and> x1 coord_ti \<le> 15 * 100 + x1 (row_coord 0))"
proof -
  let ?ff = "row_farm ''crespo_hernandez'' [0, 500, 1000] [(3 / 50, [8]), (3 / 50, [0]), (3 / 50, [0])]"
  have "intensities (turbulence_propagation row_ext False row_frame [0, 500, 1000] [0, 0, 0]
          (row_coord 0) 0 [0, 2, 2] ?ff) = Inr [3 / 50, 1 / 10, 1 / 10]"
    by (simp add: row_defs row_frame_def upt_rec sqrt_added_ambient Let_def)
  from intensities_nth [OF this] obtain ff' where
    tp: "turbulence_propagation row_ext False row_frame [0, 500, 1000] [0, 0, 0]
          (row_coord 0) 0 [0, 2, 2] ?ff = Inr ff'"
    and v: "\<forall>k < length [3 / 50, 1 / 10, 1 / 10 :: real].
              intensity_of ff' k = [3 / 50, 1 / 10, 1 / 10] ! k"
    by blast
  from v have v1: "intensity_of ff' 1 = 1 / 10" by simp
  have v0: "intensity_of ?ff 1 = 3 / 50"
    by (simp add: intensity_of_def get_turbine_def row_farm_def row_turbine_def)
  have ch: "intensity_of ff' 1 \<noteq> intensity_of ?ff 1 \<or> wake_list ff' 1 \<noteq> wake_list ?ff 1"
    using v0 v1 by simp
  have d: "rotor_diameter (get_turbine ?ff 0) = 100"
    by (simp add: get_turbine_def row_farm_def row_turbine_def)
  from propagation_reaches_only_influenced [OF row_prepared tp, where j = 1] ch
  obtain coord_ti where "(coord_ti, 1) \<in> set (sorted_map row_frame)"
    "x1 coord_ti > x1 (row_coord 0)"
    "x1 coord_ti \<le> 15 * rotor_diameter (get_turbine ?ff 0) + x1 (row_coord 0)"
    by blast
  with row_prepared tp v0 v1 d show ?thesis by auto
qed

section \<open>The streamwise field after a call with wakes\<close>








section \<open>The ambient shear profile\<close>

lemma reinitialize_turbines_shear:
  "reinitialize_turbines E ff = Inr ff1 \<Longrightarrow> wind_shear ff1 = wind_shear ff"
  by (auto simp: reinitialize_turbines_def after_Inr_iff)

lemma reinitialize_sets_shear:
  assumes "reinitialize_flow_field E (Some shear) veer wk wm resolution bounds height diameter ff
             = Inr ff1"
    and "keeps_wind_shear E"
  shows "wind_shear ff1 = shear"
proof -
  define ff2 where "ff2 = (case wm of None \<Rightarrow> ff | Some m \<Rightarrow> ff\<lparr>wind_map := m\<rparr>)\<lparr>wind_shear := shear\<rparr>"
  define ff3 where "ff3 = (case veer of None \<Rightarrow> ff2 | Some s \<Rightarrow> ff2\<lparr>wind_veer := s\<rparr>)"
  define ff4 where "ff4 = (case height of None \<Rightarrow> ff3 | Some h \<Rightarrow> ff3\<lparr>reference_wind_height := h\<rparr>)"
  define ff5 where "ff5 = (case diameter of None \<Rightarrow> ff4
                           | Some d \<Rightarrow> ff4\<lparr>reference_turbine_diameter := d\<rparr>)"
  define ff6 where "ff6 = (case wk of None \<Rightarrow> ff5 | Some k \<Rightarrow> ff5\<lparr>wake := k\<rparr>)"
  define res where "res = (case resolution of None \<Rightarrow> model_grid_resolution (wake ff6)
                           | Some r \<Rightarrow> Some r)"
  have s6: "wind_shear ff6 = shear"
    by (simp add: ff6_def ff5_def ff4_def ff3_def ff2_def split: option.splits)
  have "reinitialize_flow_field E (Some shear) veer wk wm resolution bounds height diameter ff
      = reinitialize_turbines E (compute_initialized_domain E res None (set_bounds E bounds ff6))"
    by (simp only: reinitialize_flow_field_def Let_def res_def ff6_def ff5_def ff4_def ff3_def
          ff2_def option.case)
  with assms(1) have r: "reinitialize_turbines E
      (compute_initialized_domain E res None (set_bounds E bounds ff6)) = Inr ff1"
    by simp
  from reinitialize_turbines_shear [OF r] assms(2) s6 show ?thesis
    by (simp add: keeps_wind_shear_def)
qed

lemma broadcast2_fails:
  "\<not> broadcasts a b \<Longrightarrow> broadcast2 f a b = Inl ValueError"
  by (simp add: broadcasts_def broadcast2_def)

lemma broadcast2_elements:
  assumes "broadcasts a b"
  shows "\<exists>c. broadcast2 f a b = Inr c
           \<and> length c = (if length a = 1 then length b else length a)
           \<and> (\<forall>i < length c. c ! i = f (element a i) (element b i))"
proof -
  consider (eq) "length a = length b"
    | (left) "length a \<noteq> length b" "length a = 1"
    | (right) "length a \<noteq> length b" "length a \<noteq> 1" "length b = 1"
    using assms unfolding broadcasts_def by blast
  then show ?thesis
  proof cases
    case eq
    then show ?thesis
      by (auto simp: broadcast2_def element_def)
  next
    case left
    then have "a \<noteq> []" by auto
    with left show ?thesis
      by (auto simp: broadcast2_def element_def hd_conv_nth)
  next
    case right
    then have "b \<noteq> []" by auto
    with right show ?thesis
      by (auto simp: broadcast2_def element_def hd_conv_nth)
  qed
qed

lemma shear_factor_uniform: "shear_factor height 0 zc = Some 1"
  by (simp add: shear_factor_def)

lemma shear_factor_power:
  "height \<noteq> 0 \<Longrightarrow> 0 < zc / height \<Longrightarrow> shear_factor height shear zc = Some ((zc / height) powr shear)"
proof -
  assume h: "height \<noteq> 0" and q: "0 < zc / height"
  show ?thesis
  proof (cases "shear = 0")
    case True
    from q have "zc / height \<noteq> 0" by linarith
    then have "(zc / height) powr 0 = 1" by (simp only: powr_zero_eq_one if_False)
    with True show ?thesis by (simp add: shear_factor_def)
  next
    case False
    with h q show ?thesis by (simp add: shear_factor_def np_divide_def np_power_def)
  qed
qed

lemma initialize_velocities_fails:
  "\<not> broadcasts (grid_wind_speed (wind_map ff)) (z_grid ff)
     \<Longrightarrow> initialize_velocities ff = Inl ValueError"
  by (simp add: initialize_velocities_def broadcast2_def broadcasts_def)

lemma initialize_velocities_stores:
  assumes "broadcasts (grid_wind_speed (wind_map ff)) (z_grid ff)"
  shows "\<exists>s. initialize_velocities ff = Inr s
           \<and> length (new_u_initial s)
               = (if length (grid_wind_speed (wind_map ff)) = 1 then length (z_grid ff)
                  else length (grid_wind_speed (wind_map ff)))
           \<and> (\<forall>i < length (new_u_initial s).
                 new_u_initial s ! i
                   = np_multiply (element (grid_wind_speed (wind_map ff)) i)
                       (shear_factor (reference_wind_height ff) (wind_shear ff)
                          (element (z_grid ff) i)))
           \<and> new_v_initial s = zeros (length (new_u_initial s))
           \<and> new_w_initial s = zeros (length (new_u_initial s))
           \<and> new_u s = new_u_initial s
           \<and> new_v s = new_v_initial s \<and> new_w s = new_w_initial s"
proof -
  let ?fs = "map (shear_factor (reference_wind_height ff) (wind_shear ff)) (z_grid ff)"
  from assms have b: "broadcasts (grid_wind_speed (wind_map ff)) ?fs"
    by (simp add: broadcasts_def)
  from broadcast2_elements [OF b, of np_multiply] obtain c where
    c: "broadcast2 np_multiply (grid_wind_speed (wind_map ff)) ?fs = Inr c"
    and l: "length c = (if length (grid_wind_speed (wind_map ff)) = 1 then length (z_grid ff)
                        else length (grid_wind_speed (wind_map ff)))"
    and n: "\<forall>i < length c. c ! i = np_multiply (element (grid_wind_speed (wind_map ff)) i) (element ?fs i)"
    by auto
  have e: "element ?fs i = shear_factor (reference_wind_height ff) (wind_shear ff) (element (z_grid ff) i)"
    if "i < length c" for i
  proof (cases "length (z_grid ff) = 1")
    case True
    then show ?thesis by (simp add: element_def)
  next
    case False
    with assms l that have "i < length (z_grid ff)"
      by (auto simp: broadcasts_def split: if_splits)
    with False show ?thesis by (simp add: element_def)
  qed
  have "initialize_velocities ff
          = Inr \<lparr>new_u_initial = c, new_v_initial = zeros (length c), new_w_initial = zeros (length c),
                 new_u = c, new_v = zeros (length c), new_w = zeros (length c)\<rparr>"
    by (simp add: initialize_velocities_def c)
  then show ?thesis using l n e by simp
qed

text \<open>A reference height of zero with the exponent -1: the point at height zero holds \<open>nan\<close>,
  the other points hold zero, and the arrays are stored.\<close>

lemma profile_at_height_zero:
  "initialize_velocities
     ((row_farm ''crespo_hernandez'' [0, 500, 1000] [(3 / 50, []), (3 / 50, []), (3 / 50, [])])
        \<lparr>z_grid := [0, 90, 180], reference_wind_height := 0, wind_shear := - 1\<rparr>)
   = Inr \<lparr>new_u_initial = [None, Some 0, Some 0], new_v_initial = [0, 0, 0],
          new_w_initial = [0, 0, 0], new_u = [None, Some 0, Some 0],
          new_v = [0, 0, 0], new_w = [0, 0, 0]\<rparr>"
  by (simp add: initialize_velocities_def row_farm_def shear_factor_def np_divide_def
        np_multiply_def broadcast2_def zeros_def numeral_3_eq_3)

text \<open>
  C9. After \<open>reinitialize_flow_field(wind_shear=shear)\<close>, with external domain methods that
  leave the shear exponent alone, \<open>initialize_velocities()\<close> raises \<open>ValueError\<close> when the
  grid wind speeds and \<open>z\<close> do not broadcast, and otherwise stores its arrays, for every
  shear exponent and every reference height: \<open>u_initial\<close> holds at every grid point the
  product of the grid wind speed and \<open>(z / reference_wind_height) ** shear\<close>, which is the
  grid wind speed itself for the exponent 0 and the wind speed times the real power where
  the quotient is positive; \<open>v_initial\<close> and \<open>w_initial\<close> are zero everywhere, and \<open>u\<close>, \<open>v\<close>,
  \<open>w\<close> are copies of the three.
\<close>

theorem initial_velocities_follow_shear_profile:
  assumes "reinitialize_flow_field E (Some shear) veer wk wm resolution bounds height diameter ff
             = Inr ff1"
    and "keeps_wind_shear E"
  shows "(\<not> broadcasts (grid_wind_speed (wind_map ff1)) (z_grid ff1)
            \<longrightarrow> initialize_velocities ff1 = Inl ValueError)
       \<and> (broadcasts (grid_wind_speed (wind_map ff1)) (z_grid ff1)
            \<longrightarrow> (\<exists>s. initialize_velocities ff1 = Inr s
                   \<and> length (new_u_initial s)
                       = (if length (grid_wind_speed (wind_map ff1)) = 1 then length (z_grid ff1)
                          else length (grid_wind_speed (wind_map ff1)))
                   \<and> (\<forall>i < length (new_u_initial s).
                         new_u_initial s ! i
                           = np_multiply (element (grid_wind_speed (wind_map ff1)) i)
                               (shear_factor (reference_wind_height ff1) shear
                                  (element (z_grid ff1) i))
                         \<and> (shear = 0
                              \<longrightarrow> new_u_initial s ! i = Some (element (grid_wind_speed (wind_map ff1)) i))
                         \<and> (reference_wind_height ff1 \<noteq> 0
                              \<and> 0 < element (z_grid ff1) i / reference_wind_height ff1
                              \<longrightarrow> new_u_initial s ! i
                                    = Some (element (grid_wind_speed (wind_map ff1)) i
                                            * (element (z_grid ff1) i / reference_wind_height ff1)
                                                powr shear)))
                   \<and> new_v_initial s = zeros (length (new_u_initial s))
                   \<and> new_w_initial s = zeros (length (new_u_initial s))
                   \<and> new_u s = new_u_initial s
                   \<and> new_v s = new_v_initial s \<and> new_w s = new_w_initial s))"
proof (intro conjI impI)
  assume "\<not> broadcasts (grid_wind_speed (wind_map ff1)) (z_grid ff1)"
  then show "initialize_velocities ff1 = Inl ValueError"
    by (rule initialize_velocities_fails)
next
  assume b: "broadcasts (grid_wind_speed (wind_map ff1)) (z_grid ff1)"
  note sh = reinitialize_sets_shear [OF assms]
  from initialize_velocities_stores [OF b] obtain s where
    s: "initialize_velocities ff1 = Inr s"
    and l: "length (new_u_initial s)
              = (if length (grid_wind_speed (wind_map ff1)) = 1 then length (z_grid ff1)
                 else length (grid_wind_speed (wind_map ff1)))"
    and n: "\<forall>i < length (new_u_initial s).
              new_u_initial s ! i
                = np_multiply (element (grid_wind_speed (wind_map ff1)) i)
                    (shear_factor (reference_wind_height ff1) shear (element (z_grid ff1) i))"
    and z: "new_v_initial s = zeros (length (new_u_initial s))"
           "new_w_initial s = zeros (length (new_u_initial s))"
           "new_u s = new_u_initial s" "new_v s = new_v_initial s" "new_w s = new_w_initial s"
    unfolding sh by blast
  have point: "new_u_initial s ! i
                 = np_multiply (element (grid_wind_speed (wind_map ff1)) i)
                     (shear_factor (reference_wind_height ff1) shear (element (z_grid ff1) i))
               \<and> (shear = 0
                    \<longrightarrow> new_u_initial s ! i = Some (element (grid_wind_speed (wind_map ff1)) i))
               \<and> (reference_wind_height ff1 \<noteq> 0
                    \<and> 0 < element (z_grid ff1) i / reference_wind_height ff1
                    \<longrightarrow> new_u_initial s ! i
                          = Some (element (grid_wind_speed (wind_map ff1)) i
                                  * (element (z_grid ff1) i / reference_wind_height ff1) powr shear))"
    if i: "i < length (new_u_initial s)" for i
  proof -
    from n i have v: "new_u_initial s ! i
                = np_multiply (element (grid_wind_speed (wind_map ff1)) i)
                    (shear_factor (reference_wind_height ff1) shear (element (z_grid ff1) i))"
      by simp
    have u: "new_u_initial s ! i = Some (element (grid_wind_speed (wind_map ff1)) i)" if "shear = 0"
      using v that by (simp add: shear_factor_uniform np_multiply_def)
    have p: "new_u_initial s ! i
               = Some (element (grid_wind_speed (wind_map ff1)) i
                       * (element (z_grid ff1) i / reference_wind_height ff1) powr shear)"
      if "reference_wind_height ff1 \<noteq> 0" "0 < element (z_grid ff1) i / reference_wind_height ff1"
      using v shear_factor_power [OF that] by (simp add: np_multiply_def)
    from v u p show ?thesis by blast
  qed
  show "\<exists>s. initialize_velocities ff1 = Inr s
          \<and> length (new_u_initial s)
              = (if length (grid_wind_speed (wind_map ff1)) = 1 then length (z_grid ff1)
                 else length (grid_wind_speed (wind_map ff1)))
          \<and> (\<forall>i < length (new_u_initial s).
                new_u_initial s ! i
                  = np_multiply (element (grid_wind_speed (wind_map ff1)) i)
                      (shear_factor (reference_wind_height ff1) shear (element (z_grid ff1) i))
                \<and> (shear = 0
                     \<longrightarrow> new_u_initial s ! i = Some (element (grid_wind_speed (wind_map ff1)) i))
                \<and> (reference_wind_height ff1 \<noteq> 0
                     \<and> 0 < element (z_grid ff1) i / reference_wind_height ff1
                     \<longrightarrow> new_u_initial s ! i
                           = Some (element (grid_wind_speed (wind_map ff1)) i
                                   * (element (z_grid ff1) i / reference_wind_height ff1)
                                       powr shear)))
          \<and> new_v_initial s = zeros (length (new_u_initial s))
          \<and> new_w_initial s = zeros (length (new_u_initial s))
          \<and> new_u s = new_u_initial s
          \<and> new_v s = new_v_initial s \<and> new_w s = new_w_initial s"
  proof (intro exI [of _ s] conjI)
    show "\<forall>i < length (new_u_initial s).
                new_u_initial s ! i
                  = np_multiply (element (grid_wind_speed (wind_map ff1)) i)
                      (shear_factor (reference_wind_height ff1) shear (element (z_grid ff1) i))
                \<and> (shear = 0
                     \<longrightarrow> new_u_initial s ! i = Some (element (grid_wind_speed (wind_map ff1)) i))
                \<and> (reference_wind_height ff1 \<noteq> 0
                     \<and> 0 < element (z_grid ff1) i / reference_wind_height ff1
                     \<longrightarrow> new_u_initial s ! i
                           = Some (element (grid_wind_speed (wind_map ff1)) i
                                   * (element (z_grid ff1) i / reference_wind_height ff1)
                                       powr shear))"
      using point by blast
  qed (rule s l z)+
qed

text \<open>
  The row with its third grid point at twice the reference height and the exponent 0.12;
  and the same row with the exponent 0 and the reference height 0, where the profile is
  uniform.
\<close>

theorem initial_velocities_follow_shear_profile_witness:
  "(\<exists>ff1 s.
      reinitialize_flow_field row_ext (Some (12 / 100)) None None None None None None None
        ((row_farm ''crespo_hernandez'' [0, 500, 1000] [(3 / 50, []), (3 / 50, []), (3 / 50, [])])
           \<lparr>z_grid := [90, 90, 180], wind_shear := 0\<rparr>) = Inr ff1
      \<and> keeps_wind_shear row_ext
      \<and> broadcasts (grid_wind_speed (wind_map ff1)) (z_grid ff1)
      \<and> initialize_velocities ff1 = Inr s
      \<and> length (new_u_initial s) = 3
      \<and> new_u_initial s ! 0 = Some 8
      \<and> new_u_initial s ! 2 = Some (8 * 2 powr (12 / 100))
      \<and> new_v_initial s = [0, 0, 0] \<and> new_w_initial s = [0, 0, 0])
   \<and> (\<exists>ff1 s.
      reinitialize_flow_field row_ext (Some 0) None None None None None (Some 0) None
        ((row_farm ''crespo_hernandez'' [0, 500, 1000] [(3 / 50, []), (3 / 50, []), (3 / 50, [])])
           \<lparr>z_grid := [90, 90, 180]\<rparr>) = Inr ff1
      \<and> reference_wind_height ff1 = 0
      \<and> broadcasts (grid_wind_speed (wind_map ff1)) (z_grid ff1)
      \<and> initialize_velocities ff1 = Inr s
      \<and> length (new_u_initial s) = 3
      \<and> new_u_initial s ! 0 = Some 8
      \<and> new_u_initial s ! 2 = Some 8)"
proof -
  let ?ts = "[(3 / 50, []), (3 / 50, []), (3 / 50, [])] :: (real \<times> array) list"
  let ?ts' = "[(3 / 50, [0]), (3 / 50, [0]), (3 / 50, [0])] :: (real \<times> array) list"
  let ?ff = "(row_farm ''crespo_hernandez'' [0, 500, 1000] ?ts)\<lparr>z_grid := [90, 90, 180], wind_shear := 0\<rparr>"
  let ?ff1 = "(row_farm ''crespo_hernandez'' [0, 500, 1000] ?ts')
                \<lparr>z_grid := [90, 90, 180], wind_shear := 12 / 100\<rparr>"
  let ?gg = "(row_farm ''crespo_hernandez'' [0, 500, 1000] ?ts)\<lparr>z_grid := [90, 90, 180]\<rparr>"
  let ?gg1 = "(row_farm ''crespo_hernandez'' [0, 500, 1000] ?ts')
                \<lparr>z_grid := [90, 90, 180], wind_shear := 0, reference_wind_height := 0\<rparr>"
  have k: "keeps_wind_shear row_ext"
    by (simp add: keeps_wind_shear_def row_ext_def)
  have r: "reinitialize_flow_field row_ext (Some (12 / 100)) None None None None None None None ?ff
             = Inr ?ff1"
    by (simp add: reinitialize_flow_field_def row_defs Let_def)
  have b: "broadcasts (grid_wind_speed (wind_map ?ff1)) (z_grid ?ff1)"
    by (simp add: broadcasts_def row_farm_def)
  from initial_velocities_follow_shear_profile [OF r k] b
  obtain s where
    i: "initialize_velocities ?ff1 = Inr s"
    and l: "length (new_u_initial s)
              = (if length (grid_wind_speed (wind_map ?ff1)) = 1 then length (z_grid ?ff1)
                 else length (grid_wind_speed (wind_map ?ff1)))"
    and p: "\<forall>i < length (new_u_initial s).
              (reference_wind_height ?ff1 \<noteq> 0
                 \<and> 0 < element (z_grid ?ff1) i / reference_wind_height ?ff1
                 \<longrightarrow> new_u_initial s ! i
                       = Some (element (grid_wind_speed (wind_map ?ff1)) i
                               * (element (z_grid ?ff1) i / reference_wind_height ?ff1)
                                   powr (12 / 100)))"
    and v: "new_v_initial s = zeros (length (new_u_initial s))"
    and w: "new_w_initial s = zeros (length (new_u_initial s))"
    by blast
  have l3: "length (new_u_initial s) = 3" using l by (simp add: row_farm_def)
  from v w l3 have vw: "new_v_initial s = [0, 0, 0]" "new_w_initial s = [0, 0, 0]"
    by (simp_all add: zeros_def numeral_3_eq_3)
  from p l3 have u: "new_u_initial s ! 0 = Some 8" "new_u_initial s ! 2 = Some (8 * 2 powr (12 / 100))"
    by (simp_all add: row_farm_def element_def)
  have r': "reinitialize_flow_field row_ext (Some 0) None None None None None (Some 0) None ?gg
             = Inr ?gg1"
    by (simp add: reinitialize_flow_field_def row_defs Let_def)
  have h': "reference_wind_height ?gg1 = 0" by simp
  have b': "broadcasts (grid_wind_speed (wind_map ?gg1)) (z_grid ?gg1)"
    by (simp add: broadcasts_def row_farm_def)
  from initial_velocities_follow_shear_profile [OF r' k] b'
  obtain s' where
    i': "initialize_velocities ?gg1 = Inr s'"
    and l': "length (new_u_initial s')
              = (if length (grid_wind_speed (wind_map ?gg1)) = 1 then length (z_grid ?gg1)
                 else length (grid_wind_speed (wind_map ?gg1)))"
    and p': "\<forall>i < length (new_u_initial s').
              ((0 :: real) = 0 \<longrightarrow> new_u_initial s' ! i = Some (element (grid_wind_speed (wind_map ?gg1)) i))"
    by blast
  have l3': "length (new_u_initial s') = 3" using l' by (simp add: row_farm_def)
  from p' l3' have u': "new_u_initial s' ! 0 = Some 8" "new_u_initial s' ! 2 = Some 8"
    by (simp_all add: row_farm_def element_def)
  have one: "\<exists>ff1 s.
      reinitialize_flow_field row_ext (Some (12 / 100)) None None None None None None None ?ff = Inr ff1
      \<and> keeps_wind_shear row_ext
      \<and> broadcasts (grid_wind_speed (wind_map ff1)) (z_grid ff1)
      \<and> initialize_velocities ff1 = Inr s
      \<and> length (new_u_initial s) = 3
      \<and> new_u_initial s ! 0 = Some 8
      \<and> new_u_initial s ! 2 = Some (8 * 2 powr (12 / 100))
      \<and> new_v_initial s = [0, 0, 0] \<and> new_w_initial s = [0, 0, 0]"
    by (intro exI [of _ ?ff1] exI [of _ s] conjI) (rule r k b i l3 u vw)+
  have two: "\<exists>ff1 s.
      reinitialize_flow_field row_ext (Some 0) None None None None None (Some 0) None ?gg = Inr ff1
      \<and> reference_wind_height ff1 = 0
      \<and> broadcasts (grid_wind_speed (wind_map ff1)) (z_grid ff1)
      \<and> initialize_velocities ff1 = Inr s
      \<and> length (new_u_initial s) = 3
      \<and> new_u_initial s ! 0 = Some 8
      \<and> new_u_initial s ! 2 = Some 8"
    by (intro exI [of _ ?gg1] exI [of _ s'] conjI) (rule r' h' b' i' l3' u')+
  from one two show ?thesis by (rule conjI)
qed

section \<open>A call does not depend on what earlier calls left in the turbines\<close>








end
